theory Spec2Isabelle
  imports Complex_Main "HOL-Library.Word" "HOL-Library.Log_Nat"
begin

section \<open>Supermodel SDL driver (Src/OSD/SDL/Main.cpp)\<close>

text \<open>
  A shallow embedding of the session driver of the SDL port: the display surface set-up
  (\<open>CreateGLScreen\<close>), the save state and NVRAM managers (\<open>SaveState\<close>, \<open>LoadState\<close>,
  \<open>SaveNVRAM\<close>, \<open>LoadNVRAM\<close>) and the main loop of \<open>Supermodel()\<close>. The build modelled is
  the one without \<open>SUPERMODEL_DEBUGGER\<close> and without \<open>DEBUG\<close>.

  C++ \<open>unsigned\<close> and \<open>int\<close> are 32-bit words; \<open>float\<close> is IEEE binary32 with
  round-to-nearest-even, its values kept as rationals. Calls into collaborators whose code
  is not in this file (SDL, the emulated machine, the input system, the renderers) are
  recorded as events of a trace, in the order the code makes them; what they return is an
  input of the model. \<open>BlockFile_Create\<close> and \<open>BlockFile_Load\<close> carry the path and whether
  the call returned \<open>OKAY\<close>; \<open>BlockFile_Destroy\<close> is the destructor call that C++ makes
  for the local \<open>CBlockFile\<close> of an operation, on the path it was used for, at each return
  of the operation. The calls of \<open>DebugLog\<close> and \<open>InfoLog\<close>, the OpenGL state
  set-up of \<open>CreateGLScreen\<close> and the trailing newlines of messages are left out.
\<close>

type_synonym u32 = "32 word"
type_synonym byte = "8 word"

subsection \<open>Trace of calls into collaborators\<close>

datatype event =
    ErrorLog string
  | Printf string
  | BlockFile_Create string bool
  | BlockFile_Load string bool
  | BlockFile_Write
  | BlockFile_Read
  | BlockFile_Close string
  | BlockFile_Destroy string
  | Model3_SaveState
  | Model3_LoadState
  | Model3_SaveNVRAM
  | Model3_LoadNVRAM
  | Model3_ClearNVRAM
  | Model3_Reset
  | Model3_RunFrame
  | Model3_AttachInputs
  | Model3_AttachRenderers
  | SDL_GL_SwapBuffers
  | Inputs_Poll
  | Inputs_DumpState
  | SetMouseVisibility bool
  | SDL_WM_SetCaption string "rat option"
  | SDL_Delay u32
  | OpenAudio
  | CloseAudio
  | Delete_Model3
  | Delete_Render2D
  | Delete_Render3D

subsection \<open>Persistent state container\<close>

text \<open>
  Modelled from the spec: \<open>CBlockFile\<close> (BlockFile.h and BlockFile.cpp are not part of
  this file). A container file is \<open>{blockName, description, formatVersion:int32,
  subjectId:cstring, opaque named sub-blocks...}\<close>; \<open>FindBlock\<close> locates the top-level block
  by exact name match, and the first \<open>Read\<close> after it yields the format version.
\<close>

record container =
  blockName :: string
  description :: string
  formatVersion :: u32
  subjectId :: string
  subBlocks :: "(string \<times> byte list) list"

definition FindBlock :: "container \<Rightarrow> string \<Rightarrow> bool" where
  "FindBlock f name = (blockName f = name)"

definition STATE_FILE_VERSION :: u32 where
  "STATE_FILE_VERSION = 1"

definition NVRAM_FILE_VERSION :: u32 where
  "NVRAM_FILE_VERSION = 0"

text \<open>
  The emulated machine (\<open>CModel3\<close>) is a collaborator: its state is a type parameter and
  its operations are parameters of the model. So are the macro \<open>SUPERMODEL_VERSION\<close> of
  Supermodel.h and the result of a \<open>float\<close> to \<open>unsigned\<close> conversion whose value does
  not fit 32 bits, which C++ leaves undefined.
\<close>

record 'm model3_ops =
  SUPERMODEL_VERSION :: string
  cvt_out_of_range :: "rat \<Rightarrow> u32"
  m3_id :: "'m \<Rightarrow> string"
  m3_title :: "'m \<Rightarrow> string"
  m3_RunFrame :: "'m \<Rightarrow> 'm"
  m3_Reset :: "'m \<Rightarrow> 'm"
  m3_SaveState :: "'m \<Rightarrow> (string \<times> byte list) list"
  m3_LoadState :: "container \<Rightarrow> 'm \<Rightarrow> 'm"
  m3_SaveNVRAM :: "'m \<Rightarrow> (string \<times> byte list) list"
  m3_LoadNVRAM :: "container \<Rightarrow> 'm \<Rightarrow> 'm"
  m3_ClearNVRAM :: "'m \<Rightarrow> 'm"

subsection \<open>Session state\<close>

text \<open>
  The globals and the locals of \<open>Supermodel()\<close> that the main loop reads and writes,
  together with the file system (path to container, and the set of paths that can be
  created) and the trace.
\<close>

record 'm session =
  machine :: 'm
  files :: "string \<Rightarrow> container option"
  creatable :: "string \<Rightarrow> bool"
  trace :: "event list"
  saveSlot :: u32
  quit :: bool
  paused :: bool
  showCursor :: bool
  throttle :: bool
  fullScreen :: bool
  showFPS :: bool
  titleStr :: string
  prevFPSTicks :: u32
  startTicks :: u32
  fpsFramesElapsed :: u32
  framesElapsed :: u32

definition emit :: "event \<Rightarrow> 'm session \<Rightarrow> 'm session" where
  "emit e s = s\<lparr>trace := trace s @ [e]\<rparr>"

subsection \<open>printf's \<open>%d\<close>\<close>

definition digit_char :: "nat \<Rightarrow> char" where
  "digit_char n = ''0123456789'' ! n"

fun dec_digits :: "nat \<Rightarrow> string" where
  "dec_digits n = (if n < 10 then [digit_char n] else dec_digits (n div 10) @ [digit_char (n mod 10)])"

declare dec_digits.simps [simp del]

definition show_d :: "u32 \<Rightarrow> string" where
  "show_d w = (if sint w < 0 then CHR ''-'' # dec_digits (nat (- sint w)) else dec_digits (nat (sint w)))"

subsection \<open>Save states and NVRAM\<close>

definition state_path :: "'m model3_ops \<Rightarrow> 'm session \<Rightarrow> string" where
  "state_path ops s = ''Saves/'' @ m3_id ops (machine s) @ ''.st'' @ show_d (saveSlot s)"

definition nvram_path :: "'m model3_ops \<Rightarrow> 'm session \<Rightarrow> string" where
  "nvram_path ops s = ''NVRAM/'' @ m3_id ops (machine s) @ ''.nv''"

definition SaveState :: "'m model3_ops \<Rightarrow> 'm session \<Rightarrow> 'm session" where
  "SaveState ops s =
     (let filePath = state_path ops s;
          s1 = emit (BlockFile_Create filePath (creatable s filePath)) s in
      if \<not> creatable s filePath
      then emit (BlockFile_Destroy filePath)
             (emit (ErrorLog (''Unable to save state to '' @ filePath @ ''.'')) s1)
      else
        let s2 = emit BlockFile_Write (emit BlockFile_Write s1);
            s3 = emit Model3_SaveState s2;
            f = \<lparr>blockName = ''Supermodel Save State'',
                 description = ''Supermodel Version '' @ SUPERMODEL_VERSION ops,
                 formatVersion = STATE_FILE_VERSION,
                 subjectId = m3_id ops (machine s),
                 subBlocks = m3_SaveState ops (machine s)\<rparr>;
            s4 = emit (BlockFile_Close filePath) (s3\<lparr>files := (files s3)(filePath \<mapsto> f)\<rparr>)
        in emit (BlockFile_Destroy filePath)
             (emit (Printf (''Saved state to '' @ filePath @ ''.'')) s4))"

definition LoadState :: "'m model3_ops \<Rightarrow> 'm session \<Rightarrow> 'm session" where
  "LoadState ops s =
     (let filePath = state_path ops s in
      case files s filePath of
        None \<Rightarrow>
          emit (BlockFile_Destroy filePath)
            (emit (ErrorLog (''Unable to load state from '' @ filePath @ ''.''))
               (emit (BlockFile_Load filePath False) s))
      | Some f \<Rightarrow>
          let s1 = emit (BlockFile_Load filePath True) s in
          if \<not> FindBlock f ''Supermodel Save State''
          then emit (BlockFile_Destroy filePath)
                 (emit (ErrorLog (filePath @ '' does not appear to be a valid save state file.'')) s1)
          else
            let s2 = emit BlockFile_Read s1;
                fileVersion = formatVersion f in
            if fileVersion \<noteq> STATE_FILE_VERSION
            then emit (BlockFile_Destroy filePath)
                   (emit (ErrorLog (filePath @ '' is incompatible with this version of Supermodel.'')) s2)
            else
              let s3 = emit Model3_LoadState (s2\<lparr>machine := m3_LoadState ops f (machine s2)\<rparr>);
                  s4 = emit (BlockFile_Close filePath) s3
              in emit (BlockFile_Destroy filePath)
                   (emit (Printf (''Loaded state from '' @ filePath @ ''.'')) s4))"

definition SaveNVRAM :: "'m model3_ops \<Rightarrow> 'm session \<Rightarrow> 'm session" where
  "SaveNVRAM ops s =
     (let filePath = nvram_path ops s;
          s1 = emit (BlockFile_Create filePath (creatable s filePath)) s in
      if \<not> creatable s filePath
      then emit (BlockFile_Destroy filePath)
             (emit (ErrorLog (''Unable to save NVRAM to '' @ filePath @ ''. Make sure directory exists!'')) s1)
      else
        let s2 = emit BlockFile_Write (emit BlockFile_Write s1);
            s3 = emit Model3_SaveNVRAM s2;
            f = \<lparr>blockName = ''Supermodel NVRAM State'',
                 description = ''Supermodel Version '' @ SUPERMODEL_VERSION ops,
                 formatVersion = NVRAM_FILE_VERSION,
                 subjectId = m3_id ops (machine s),
                 subBlocks = m3_SaveNVRAM ops (machine s)\<rparr>
        in emit (BlockFile_Destroy filePath)
             (emit (BlockFile_Close filePath) (s3\<lparr>files := (files s3)(filePath \<mapsto> f)\<rparr>)))"

definition LoadNVRAM :: "'m model3_ops \<Rightarrow> 'm session \<Rightarrow> 'm session" where
  "LoadNVRAM ops s =
     (let filePath = nvram_path ops s in
      case files s filePath of
        None \<Rightarrow> emit (BlockFile_Destroy filePath) (emit (BlockFile_Load filePath False) s)
      | Some f \<Rightarrow>
          let s1 = emit (BlockFile_Load filePath True) s in
          if \<not> FindBlock f ''Supermodel NVRAM State''
          then emit (BlockFile_Destroy filePath)
                 (emit (ErrorLog (filePath @ '' does not appear to be a valid NVRAM file.'')) s1)
          else
            let s2 = emit BlockFile_Read s1;
                fileVersion = formatVersion f in
            if fileVersion \<noteq> NVRAM_FILE_VERSION
            then emit (BlockFile_Destroy filePath)
                   (emit (ErrorLog (filePath @ '' is incompatible with this version of Supermodel.'')) s2)
            else
              let s3 = emit Model3_LoadNVRAM (s2\<lparr>machine := m3_LoadNVRAM ops f (machine s2)\<rparr>)
              in emit (BlockFile_Destroy filePath) (emit (BlockFile_Close filePath) s3))"

text \<open>
  Modelled from the spec: what the member functions of \<open>CBlockFile\<close> do to the file handle
  (BlockFile.cpp is not part of this file). A container file handle is scoped to a single
  save, load or NVRAM operation - opened, fully consumed, closed: a \<open>Create\<close> or \<open>Load\<close>
  that returns \<open>OKAY\<close> opens the handle of its path, \<open>Close\<close> closes it, and the
  destructor, which ends the scope of the \<open>CBlockFile\<close>, releases the handle if it is still
  open. \<open>handles_left_open\<close> lists the handles that are open after a trace.
\<close>

definition handle_step :: "string list \<Rightarrow> event \<Rightarrow> string list" where
  "handle_step hs e =
     (case e of
        BlockFile_Load p ok \<Rightarrow> (if ok then p # hs else hs)
      | BlockFile_Create p ok \<Rightarrow> (if ok then p # hs else hs)
      | BlockFile_Close p \<Rightarrow> remove1 p hs
      | BlockFile_Destroy p \<Rightarrow> remove1 p hs
      | _ \<Rightarrow> hs)"

definition handles_left_open :: "event list \<Rightarrow> string list" where
  "handles_left_open tr = foldl handle_step [] tr"

subsection \<open>Single precision arithmetic\<close>

text \<open>
  \<open>f32 x\<close> is the binary32 number nearest to \<open>x\<close>, ties to the even significand, for
  \<open>x\<close> in the normal range (every value the driver computes is 0 or lies between
  \<open>2^-126\<close> and \<open>2^128\<close>). Each C++ operation on \<open>float\<close> is the exact operation
  followed by \<open>f32\<close>.
\<close>

definition rne :: "rat \<Rightarrow> int" where
  "rne q = (let f = \<lfloor>q\<rfloor>; d = q - of_int f in
            if d < 1 / 2 then f else if 1 / 2 < d then f + 1 else if even f then f else f + 1)"

definition ilog2 :: "rat \<Rightarrow> int" where
  "ilog2 x = (if 1 \<le> x then int (floorlog 2 (nat \<lfloor>x\<rfloor>)) - 1
              else let k = int (floorlog 2 (nat \<lfloor>1 / x\<rfloor>)) - 1
                   in if x * 2 powi k = 1 then - k else - k - 1)"

definition f32 :: "rat \<Rightarrow> rat" where
  "f32 x = (if x = 0 then 0
            else let u = 2 powi (ilog2 \<bar>x\<bar> - 23)
                 in sgn x * of_int (rne (\<bar>x\<bar> / u)) * u)"

definition f32_of_u32 :: "u32 \<Rightarrow> rat" where
  "f32_of_u32 w = f32 (of_nat (unat w))"

definition trunc :: "rat \<Rightarrow> int" where
  "trunc x = (if 0 \<le> x then \<lfloor>x\<rfloor> else \<lceil>x\<rceil>)"

definition u32_of_f32 :: "'m model3_ops \<Rightarrow> rat \<Rightarrow> u32" where
  "u32_of_f32 ops x =
     (if 0 \<le> trunc x \<and> trunc x < 2 ^ 32 then word_of_int (trunc x) else cvt_out_of_range ops x)"

subsection \<open>Display management\<close>

record video_results =
  SDL_InitSubSystem_ok :: bool
  SDL_SetVideoMode_ok :: bool
  current_w :: u32
  current_h :: u32
  glewInit_ok :: bool

record screen =
  xOffset :: u32
  yOffset :: u32
  xRes :: u32
  yRes :: u32

definition model3Ratio :: rat where
  "model3Ratio = f32 (496 / 384)"

definition fix_aspect :: "rat \<times> rat \<Rightarrow> rat \<times> rat" where
  "fix_aspect p =
     (let xRes0 = fst p; yRes0 = snd p;
          xRes1 = (if yRes0 < f32 (xRes0 / model3Ratio) then f32 (yRes0 * model3Ratio) else xRes0);
          yRes1 = (if xRes1 < f32 (yRes0 * model3Ratio) then f32 (xRes1 / model3Ratio) else yRes0)
      in (xRes1, yRes1))"

text \<open>
  \<open>CreateGLScreen\<close> returns \<open>FAIL\<close> (\<open>Inl\<close>) or \<open>OKAY\<close> (\<open>Inr\<close>), in both cases with the
  four values behind its pointer arguments as it leaves them, and the events it emitted.
  The unused local \<open>ratio\<close> is left out.
\<close>

definition CreateGLScreen ::
  "'m model3_ops \<Rightarrow> video_results \<Rightarrow> string \<Rightarrow> screen \<Rightarrow> bool \<Rightarrow> bool \<Rightarrow> (screen \<times> event list) + (screen \<times> event list)" where
  "CreateGLScreen ops v caption scr keepAspectRatio fullScr =
     (if \<not> SDL_InitSubSystem_ok v
      then Inl (scr, [ErrorLog ''Unable to initialize SDL video subsystem''])
      else if \<not> SDL_SetVideoMode_ok v
      then Inl (scr, [ErrorLog ''Unable to create an OpenGL display''])
      else
        let xResF = f32_of_u32 (xRes scr);
            yResF = f32_of_u32 (yRes scr);
            fixed = (if keepAspectRatio then fix_aspect (xResF, yResF) else (xResF, yResF));
            xo = (xRes scr - u32_of_f32 ops (fst fixed)) div 2;
            yo = (yRes scr - u32_of_f32 ops (snd fixed)) div 2;
            xo' = (if xRes scr < current_w v then xo + (current_w v - xRes scr) div 2 else xo);
            yo' = (if yRes scr < current_h v then yo + (current_h v - yRes scr) div 2 else yo);
            scr1 = scr\<lparr>xOffset := xo', yOffset := yo'\<rparr>
        in if \<not> glewInit_ok v
           then Inl (scr1, [SDL_WM_SetCaption caption None, ErrorLog ''OpenGL initialization failed''])
           else Inr (scr1\<lparr>xRes := u32_of_f32 ops (fst fixed), yRes := u32_of_f32 ops (snd fixed)\<rparr>,
                     [SDL_WM_SetCaption caption None]))"

subsection \<open>Main loop\<close>

text \<open>
  What one iteration of the loop reads from outside: the result of \<open>Inputs->Poll\<close>, the
  \<open>Pressed()\<close> state of each UI control after that poll, and the value of
  \<open>SDL_GetTicks()\<close>.
\<close>

record ui_input =
  poll_ok :: bool
  uiExit :: bool
  uiReset :: bool
  uiPause :: bool
  uiSaveState :: bool
  uiChangeSlot :: bool
  uiLoadState :: bool
  uiDumpInpState :: bool
  uiToggleCursor :: bool
  uiClearNVRAM :: bool
  uiToggleFrLimit :: bool
  ticks :: u32

definition run_frame :: "'m model3_ops \<Rightarrow> 'm session \<Rightarrow> 'm session" where
  "run_frame ops s =
     (if \<not> paused s
      then emit SDL_GL_SwapBuffers (emit Model3_RunFrame (s\<lparr>machine := m3_RunFrame ops (machine s)\<rparr>))
      else s)"

definition poll_inputs :: "ui_input \<Rightarrow> 'm session \<Rightarrow> 'm session" where
  "poll_inputs i s = (let s1 = emit Inputs_Poll s in if \<not> poll_ok i then s1\<lparr>quit := True\<rparr> else s1)"

definition change_slot :: "'m session \<Rightarrow> 'm session" where
  "change_slot s =
     (let s1 = s\<lparr>saveSlot := saveSlot s + 1\<rparr>;
          s2 = s1\<lparr>saveSlot := saveSlot s1 mod 10\<rparr>
      in emit (Printf (''Save slot: '' @ show_d (saveSlot s2))) s2)"

definition check_ui :: "'m model3_ops \<Rightarrow> ui_input \<Rightarrow> 'm session \<Rightarrow> 'm session" where
  "check_ui ops i s =
     (if uiExit i then s\<lparr>quit := True\<rparr>
      else if uiReset i
      then emit (Printf ''Model 3 reset.'') (emit Model3_Reset (s\<lparr>machine := m3_Reset ops (machine s)\<rparr>))
      else if uiPause i then s\<lparr>paused := \<not> paused s\<rparr>
      else if uiSaveState i then SaveState ops s
      else if uiChangeSlot i then change_slot s
      else if uiLoadState i then LoadState ops s
      else if uiDumpInpState i then emit Inputs_DumpState s
      else if uiToggleCursor i \<and> fullScreen s
      then emit (SetMouseVisibility (\<not> showCursor s)) (s\<lparr>showCursor := \<not> showCursor s\<rparr>)
      else if uiClearNVRAM i
      then emit (Printf ''NVRAM cleared.'')
             (emit Model3_ClearNVRAM (s\<lparr>machine := m3_ClearNVRAM ops (machine s)\<rparr>))
      else if uiToggleFrLimit i
      then emit (Printf (''Frame limiting: '' @ (if \<not> throttle s then ''On'' else ''Off'')))
             (s\<lparr>throttle := \<not> throttle s\<rparr>)
      else s)"

definition fps_rate :: "u32 \<Rightarrow> u32 \<Rightarrow> rat" where
  "fps_rate frames elapsed = f32 (f32 (f32_of_u32 frames * f32_of_u32 elapsed) / 1000)"

definition update_fps :: "u32 \<Rightarrow> 'm session \<Rightarrow> 'm session" where
  "update_fps currentFPSTicks s =
     (if showFPS s
      then
        let s1 = s\<lparr>fpsFramesElapsed := fpsFramesElapsed s + 1\<rparr> in
        if currentFPSTicks - prevFPSTicks s1 \<ge> 1000
        then
          let rate = fps_rate (fpsFramesElapsed s1) (currentFPSTicks - prevFPSTicks s1);
              s2 = emit (SDL_WM_SetCaption (titleStr s1) (Some rate)) s1
          in s2\<lparr>prevFPSTicks := currentFPSTicks, fpsFramesElapsed := 0\<rparr>
        else s1
      else s)"

definition frame_offset :: "'m model3_ops \<Rightarrow> u32 \<Rightarrow> u32" where
  "frame_offset ops n = u32_of_f32 ops (f32 (f32 (f32_of_u32 n * 1000) / 60))"

definition limit_frames :: "'m model3_ops \<Rightarrow> u32 \<Rightarrow> 'm session \<Rightarrow> 'm session" where
  "limit_frames ops currentTicks s =
     (if paused s \<or> throttle s
      then
        let s1 = s\<lparr>framesElapsed := framesElapsed s + 1\<rparr>;
            targetTicks = startTicks s1 + frame_offset ops (framesElapsed s1)
        in if currentTicks \<le> targetTicks
           then emit (SDL_Delay (targetTicks - currentTicks)) s1
           else s1\<lparr>framesElapsed := 0, startTicks := currentTicks\<rparr>
      else s)"

definition iteration :: "'m model3_ops \<Rightarrow> ui_input \<Rightarrow> 'm session \<Rightarrow> 'm session" where
  "iteration ops i s =
     limit_frames ops (ticks i) (update_fps (ticks i) (check_ui ops i (poll_inputs i (run_frame ops s))))"

text \<open>
  The loop \<open>while (!quit)\<close> over the inputs of the successive iterations. A loop that is
  still running when the inputs end has not returned: \<open>None\<close>.
\<close>

fun main_loop :: "'m model3_ops \<Rightarrow> ui_input list \<Rightarrow> 'm session \<Rightarrow> 'm session option" where
  "main_loop ops [] s = (if quit s then Some s else None)"
| "main_loop ops (i # is) s = (if quit s then Some s else main_loop ops is (iteration ops i s))"

subsection \<open>The session driver\<close>

record init_results =
  Model3_Init_ok :: bool
  LoadROMSet_ok :: bool
  video :: video_results
  OpenAudio_ok :: bool
  Render2D_Init_ok :: bool
  Render3D_Init_ok :: bool
  first_ticks :: u32

text \<open>
  \<open>Supermodel()\<close> from a session \<open>s\<close> whose machine is the one that \<open>Init\<close> and
  \<open>LoadROMSet\<close> leave, and whose configuration fields (\<open>throttle\<close>, \<open>fullScreen\<close>,
  \<open>showFPS\<close>) and requested resolution \<open>req\<close> are \<open>g_Config\<close> after \<open>ReadConfigFile\<close>
  and \<open>ApplySettings\<close> (the INI reader is not part of this file). The result is the exit
  code, the display geometry and the final session; \<open>None\<close> when the main loop has not
  returned.
\<close>

definition quit_error :: "'m session \<Rightarrow> 'm session" where
  "quit_error s = emit Delete_Render3D (emit Delete_Render2D (emit Delete_Model3 s))"

definition shut_down :: "'m model3_ops \<Rightarrow> 'm session \<Rightarrow> 'm session" where
  "shut_down ops s =
     emit Delete_Render3D (emit Delete_Render2D (emit Delete_Model3 (emit CloseAudio (SaveNVRAM ops s))))"

definition start_loop :: "u32 \<Rightarrow> 'm session \<Rightarrow> 'm session" where
  "start_loop t s =
     s\<lparr>quit := False, paused := False, showCursor := False,
       fpsFramesElapsed := 0, framesElapsed := 0, prevFPSTicks := t, startTicks := t\<rparr>"

definition emulate ::
  "'m model3_ops \<Rightarrow> init_results \<Rightarrow> ui_input list \<Rightarrow> screen \<Rightarrow> 'm session \<Rightarrow> (int \<times> screen \<times> 'm session) option" where
  "emulate ops r ins scr s =
     (if \<not> OpenAudio_ok r then Some (1, scr, s)
      else
        let s4 = emit OpenAudio s;
            s5 = emit (SetMouseVisibility (\<not> fullScreen s4)) s4;
            s6 = emit Model3_AttachInputs s5
        in if \<not> Render2D_Init_ok r then Some (1, scr, quit_error s6)
           else if \<not> Render3D_Init_ok r then Some (1, scr, quit_error s6)
           else
             let s7 = emit Model3_AttachRenderers s6;
                 s8 = emit Model3_Reset (s7\<lparr>machine := m3_Reset ops (machine s7)\<rparr>)
             in map_option (\<lambda>s9. (0, scr, shut_down ops s9))
                  (main_loop ops ins (start_loop (first_ticks r) s8)))"

definition Supermodel ::
  "'m model3_ops \<Rightarrow> init_results \<Rightarrow> ui_input list \<Rightarrow> screen \<Rightarrow> 'm session \<Rightarrow> (int \<times> screen \<times> 'm session) option" where
  "Supermodel ops r ins req s =
     (if \<not> Model3_Init_ok r then Some (1, req, s)
      else if \<not> LoadROMSet_ok r then Some (1, req, s)
      else
        let s1 = LoadNVRAM ops s;
            s2 = s1\<lparr>titleStr := ''Supermodel - '' @ m3_title ops (machine s1)\<rparr>
        in case CreateGLScreen ops (video r) (titleStr s2) req True (fullScreen s2) of
             Inl (scr, evs) \<Rightarrow> Some (1, scr, s2\<lparr>trace := trace s2 @ evs\<rparr>)
           | Inr (scr, evs) \<Rightarrow> emulate ops r ins scr (s2\<lparr>trace := trace s2 @ evs\<rparr>))"

subsection \<open>The priority list of UI commands, as the specification words it\<close>

text \<open>
  The specification describes the chain of \<open>check_ui\<close> as an ordered list of commands, of
  which the first asserted one is applied. These definitions follow that description; the
  actions are the bodies of the branches.
\<close>

datatype ui_command =
    Cmd_Exit
  | Cmd_Reset
  | Cmd_TogglePause
  | Cmd_SaveState
  | Cmd_ChangeSlot
  | Cmd_LoadState
  | Cmd_DumpInputState
  | Cmd_ToggleCursor
  | Cmd_ClearNVRAM
  | Cmd_ToggleThrottle

definition priority_order :: "ui_command list" where
  "priority_order =
     [Cmd_Exit, Cmd_Reset, Cmd_TogglePause, Cmd_SaveState, Cmd_ChangeSlot, Cmd_LoadState,
      Cmd_DumpInputState, Cmd_ToggleCursor, Cmd_ClearNVRAM, Cmd_ToggleThrottle]"

fun asserted :: "ui_input \<Rightarrow> 'm session \<Rightarrow> ui_command \<Rightarrow> bool" where
  "asserted i s Cmd_Exit = uiExit i"
| "asserted i s Cmd_Reset = uiReset i"
| "asserted i s Cmd_TogglePause = uiPause i"
| "asserted i s Cmd_SaveState = uiSaveState i"
| "asserted i s Cmd_ChangeSlot = uiChangeSlot i"
| "asserted i s Cmd_LoadState = uiLoadState i"
| "asserted i s Cmd_DumpInputState = uiDumpInpState i"
| "asserted i s Cmd_ToggleCursor = (uiToggleCursor i \<and> fullScreen s)"
| "asserted i s Cmd_ClearNVRAM = uiClearNVRAM i"
| "asserted i s Cmd_ToggleThrottle = uiToggleFrLimit i"

definition selected_command :: "ui_input \<Rightarrow> 'm session \<Rightarrow> ui_command option" where
  "selected_command i s = find (asserted i s) priority_order"

fun apply_command :: "'m model3_ops \<Rightarrow> ui_command \<Rightarrow> 'm session \<Rightarrow> 'm session" where
  "apply_command ops Cmd_Exit s = s\<lparr>quit := True\<rparr>"
| "apply_command ops Cmd_Reset s =
     emit (Printf ''Model 3 reset.'') (emit Model3_Reset (s\<lparr>machine := m3_Reset ops (machine s)\<rparr>))"
| "apply_command ops Cmd_TogglePause s = s\<lparr>paused := \<not> paused s\<rparr>"
| "apply_command ops Cmd_SaveState s = SaveState ops s"
| "apply_command ops Cmd_ChangeSlot s = change_slot s"
| "apply_command ops Cmd_LoadState s = LoadState ops s"
| "apply_command ops Cmd_DumpInputState s = emit Inputs_DumpState s"
| "apply_command ops Cmd_ToggleCursor s =
     emit (SetMouseVisibility (\<not> showCursor s)) (s\<lparr>showCursor := \<not> showCursor s\<rparr>)"
| "apply_command ops Cmd_ClearNVRAM s =
     emit (Printf ''NVRAM cleared.'')
       (emit Model3_ClearNVRAM (s\<lparr>machine := m3_ClearNVRAM ops (machine s)\<rparr>))"
| "apply_command ops Cmd_ToggleThrottle s =
     emit (Printf (''Frame limiting: '' @ (if \<not> throttle s then ''On'' else ''Off'')))
       (s\<lparr>throttle := \<not> throttle s\<rparr>)"

subsection \<open>Observations on traces\<close>

text \<open>
  The events that a step appended, the events that count as an NVRAM save (the creation of
  a file under \<open>NVRAM/\<close>), the property that a step only appends events of a given kind,
  and the events that an iteration of the main loop can emit (\<open>RunFrame\<close> and the buffer
  swap only while running).
\<close>

definition events_since :: "'m session \<Rightarrow> 'm session \<Rightarrow> event list" where
  "events_since s s' = drop (length (trace s)) (trace s')"

definition is_nvram_save :: "event \<Rightarrow> bool" where
  "is_nvram_save e = (case e of BlockFile_Create p ok \<Rightarrow> take 6 p = ''NVRAM/'' | _ \<Rightarrow> False)"

definition nvram_saves :: "event list \<Rightarrow> nat" where
  "nvram_saves tr = length (filter is_nvram_save tr)"




subsection \<open>A concrete machine and session\<close>

text \<open>
  A machine whose state is a frame counter, with sessions, inputs, files and displays to
  run the definitions on.
\<close>

definition counter_ops :: "nat model3_ops" where
  "counter_ops =
     \<lparr>SUPERMODEL_VERSION = ''0.2a'',
      cvt_out_of_range = (\<lambda>x. 0),
      m3_id = (\<lambda>m. ''scud''),
      m3_title = (\<lambda>m. ''Scud Race''),
      m3_RunFrame = Suc,
      m3_Reset = (\<lambda>m. 0),
      m3_SaveState = (\<lambda>m. [(''Model 3'', [word_of_nat m])]),
      m3_LoadState = (\<lambda>f m. length (subBlocks f)),
      m3_SaveNVRAM = (\<lambda>m. [(''EEPROM'', [word_of_nat m])]),
      m3_LoadNVRAM = (\<lambda>f m. length (subBlocks f)),
      m3_ClearNVRAM = (\<lambda>m. m)\<rparr>"

definition fresh_session :: "nat session" where
  "fresh_session =
     \<lparr>machine = 7, files = Map.empty, creatable = (\<lambda>p. True), trace = [], saveSlot = 0,
      quit = False, paused = False, showCursor = False, throttle = True, fullScreen = False,
      showFPS = True, titleStr = ''Supermodel - Scud Race'', prevFPSTicks = 0, startTicks = 0,
      fpsFramesElapsed = 0, framesElapsed = 0\<rparr>"


definition every_input :: ui_input where
  "every_input =
     \<lparr>poll_ok = True, uiExit = True, uiReset = True, uiPause = True, uiSaveState = True,
      uiChangeSlot = True, uiLoadState = True, uiDumpInpState = True, uiToggleCursor = True,
      uiClearNVRAM = True, uiToggleFrLimit = True, ticks = 0\<rparr>"

definition all_ok :: init_results where
  "all_ok =
     \<lparr>Model3_Init_ok = True, LoadROMSet_ok = True,
      video = \<lparr>SDL_InitSubSystem_ok = True, SDL_SetVideoMode_ok = True,
               current_w = 496, current_h = 384, glewInit_ok = True\<rparr>,
      OpenAudio_ok = True, Render2D_Init_ok = True, Render3D_Init_ok = True, first_ticks = 0\<rparr>"

definition big_display :: video_results where
  "big_display =
     \<lparr>SDL_InitSubSystem_ok = True, SDL_SetVideoMode_ok = True,
      current_w = 1920, current_h = 1080, glewInit_ok = True\<rparr>"

definition request :: "u32 \<Rightarrow> u32 \<Rightarrow> screen" where
  "request w h = \<lparr>xOffset = 0, yOffset = 0, xRes = w, yRes = h\<rparr>"

definition stale_state :: container where
  "stale_state =
     \<lparr>blockName = ''Supermodel Save State'', description = ''Supermodel Version 0.1a'',
      formatVersion = 0, subjectId = ''scud'', subBlocks = [(''Model 3'', [1, 2])]\<rparr>"

definition misnamed_nvram :: container where
  "misnamed_nvram =
     \<lparr>blockName = ''Supermodel Save State'', description = ''Supermodel Version 0.2a'',
      formatVersion = 1, subjectId = ''scud'', subBlocks = [(''Model 3'', [1, 2])]\<rparr>"

definition stale_session :: "nat session" where
  "stale_session =
     fresh_session\<lparr>files := [''Saves/scud.st0'' \<mapsto> stale_state, ''NVRAM/scud.nv'' \<mapsto> misnamed_nvram]\<rparr>"

definition stalled_session :: "nat session" where
  "stalled_session = fresh_session\<lparr>startTicks := 1000, framesElapsed := 3\<rparr>"

section \<open>Properties\<close>

subsection \<open>Events and fields\<close>

lemma emit_simps [simp]:
  "trace (emit e s) = trace s @ [e]"
  "machine (emit e s) = machine s"
  "saveSlot (emit e s) = saveSlot s"
  "files (emit e s) = files s"
  "creatable (emit e s) = creatable s"
  "quit (emit e s) = quit s"
  "paused (emit e s) = paused s"
  "showCursor (emit e s) = showCursor s"
  "throttle (emit e s) = throttle s"
  "fullScreen (emit e s) = fullScreen s"
  "showFPS (emit e s) = showFPS s"
  "titleStr (emit e s) = titleStr s"
  "prevFPSTicks (emit e s) = prevFPSTicks s"
  "startTicks (emit e s) = startTicks s"
  "fpsFramesElapsed (emit e s) = fpsFramesElapsed s"
  "framesElapsed (emit e s) = framesElapsed s"
  by (simp_all add: emit_def)

subsection \<open>Save slots\<close>

lemma saveSlot_change_slot: "saveSlot (change_slot s) = (saveSlot s + 1) mod 10"
  by (simp add: change_slot_def Let_def)

lemma unat_change_slot:
  "unat (saveSlot (change_slot s)) = ((unat (saveSlot s) + 1) mod 2 ^ 32) mod 10"
  by (simp add: saveSlot_change_slot unat_mod unat_word_ariths)

lemma unat_change_slot_funpow:
  "unat (saveSlot s) < 10 \<Longrightarrow> unat (saveSlot ((change_slot ^^ k) s)) = (unat (saveSlot s) + k) mod 10"
proof (induction k)
  case 0
  then show ?case by simp
next
  case (Suc k)
  have "unat (saveSlot ((change_slot ^^ k) s)) < 10"
    using Suc by simp
  then show ?case
    using Suc by (simp add: unat_change_slot mod_Suc_eq)
qed

lemma change_slot_other [simp]:
  "machine (change_slot s) = machine s"
  "files (change_slot s) = files s"
  by (simp_all add: change_slot_def Let_def)

lemma change_slot_funpow_other [simp]:
  "machine ((change_slot ^^ k) s) = machine s"
  "files ((change_slot ^^ k) s) = files s"
  by (induction k) simp_all

lemma SaveState_other [simp]:
  "machine (SaveState ops s) = machine s"
  "saveSlot (SaveState ops s) = saveSlot s"
  by (simp_all add: SaveState_def Let_def)

lemma show_d_0: "show_d 0 = ''0''"
  by (simp add: show_d_def dec_digits.simps digit_char_def)

lemma show_d_3: "show_d 3 = ''3''"
  by (simp add: show_d_def dec_digits.simps digit_char_def)

lemma LoadState_first_event:
  "take 1 (events_since s (LoadState ops s)) =
     [BlockFile_Load (state_path ops s) (files s (state_path ops s) \<noteq> None)]"
  by (auto simp add: LoadState_def Let_def events_since_def split: option.split)

text \<open>
  Claim C6. \<open>ChangeSlot\<close> sets the slot to (slot + 1) mod 10, so that it lies in [0,9]
  afterwards; from a slot in [0,9], ten applications give the slot back; and after a
  \<open>SaveState\<close> at slot 3 and seven \<open>ChangeSlot\<close>s the slot is 0, the path of the state
  file is the one of slot 0, which is not the one written to, and the first thing
  \<open>LoadState\<close> does is to open that path.
\<close>

theorem ChangeSlot_wraps_mod_10:
  "saveSlot (change_slot s) = (saveSlot s + 1) mod 10
   \<and> unat (saveSlot (change_slot s)) < 10
   \<and> (unat (saveSlot s) < 10 \<longrightarrow> saveSlot ((change_slot ^^ 10) s) = saveSlot s)
   \<and> (saveSlot s = 3 \<longrightarrow>
        (let s' = (change_slot ^^ 7) (SaveState ops s);
             slot0 = ''Saves/'' @ m3_id ops (machine s) @ ''.st0''
         in saveSlot s' = 0
            \<and> state_path ops s' = slot0
            \<and> state_path ops s \<noteq> slot0
            \<and> take 1 (events_since s' (LoadState ops s')) =
                 [BlockFile_Load slot0 (files s' slot0 \<noteq> None)]))"
proof (intro conjI impI)
  show "saveSlot (change_slot s) = (saveSlot s + 1) mod 10"
    by (rule saveSlot_change_slot)
  show "unat (saveSlot (change_slot s)) < 10"
    by (simp add: unat_change_slot)
next
  assume "unat (saveSlot s) < 10"
  then have "unat (saveSlot ((change_slot ^^ 10) s)) = unat (saveSlot s)"
    by (simp add: unat_change_slot_funpow)
  then show "saveSlot ((change_slot ^^ 10) s) = saveSlot s"
    by (rule word_unat_eq_iff [THEN iffD2])
next
  assume three: "saveSlot s = 3"
  define s' where "s' = (change_slot ^^ 7) (SaveState ops s)"
  define slot0 where "slot0 = ''Saves/'' @ m3_id ops (machine s) @ ''.st0''"
  have "unat (saveSlot s') = 0"
    unfolding s'_def using three by (simp add: unat_change_slot_funpow)
  then have slot: "saveSlot s' = 0"
    by (simp add: unat_eq_0)
  have m: "machine s' = machine s"
    by (simp add: s'_def)
  have path: "state_path ops s' = slot0"
    by (simp add: state_path_def slot m show_d_0 slot0_def)
  have neq: "state_path ops s \<noteq> slot0"
    by (simp add: state_path_def three show_d_3 slot0_def)
  have ev: "take 1 (events_since s' (LoadState ops s')) = [BlockFile_Load slot0 (files s' slot0 \<noteq> None)]"
    using LoadState_first_event [of s' ops] by (simp only: path)
  show "let s' = (change_slot ^^ 7) (SaveState ops s);
            slot0 = ''Saves/'' @ m3_id ops (machine s) @ ''.st0''
        in saveSlot s' = 0
           \<and> state_path ops s' = slot0
           \<and> state_path ops s \<noteq> slot0
           \<and> take 1 (events_since s' (LoadState ops s')) =
                [BlockFile_Load slot0 (files s' slot0 \<noteq> None)]"
    unfolding Let_def s'_def [symmetric] slot0_def [symmetric] using slot path neq ev by blast
qed

theorem ChangeSlot_wraps_mod_10_witness:
  "unat (saveSlot (fresh_session\<lparr>saveSlot := 3\<rparr>)) < 10
   \<and> saveSlot ((change_slot ^^ 10) (fresh_session\<lparr>saveSlot := 3\<rparr>)) = 3
   \<and> saveSlot ((change_slot ^^ 7) (SaveState counter_ops (fresh_session\<lparr>saveSlot := 3\<rparr>))) = 0
   \<and> state_path counter_ops ((change_slot ^^ 7) (SaveState counter_ops (fresh_session\<lparr>saveSlot := 3\<rparr>)))
       = ''Saves/scud.st0''"
  using ChangeSlot_wraps_mod_10 [of "fresh_session\<lparr>saveSlot := 3\<rparr>" counter_ops]
  by (simp add: fresh_session_def counter_ops_def Let_def)

subsection \<open>Loading and saving containers\<close>


lemma LoadState_no_block:
  "files s (state_path ops s) = Some f \<Longrightarrow> \<not> FindBlock f ''Supermodel Save State'' \<Longrightarrow>
   LoadState ops s = s\<lparr>trace := trace s @ [BlockFile_Load (state_path ops s) True,
     ErrorLog (state_path ops s @ '' does not appear to be a valid save state file.''),
     BlockFile_Destroy (state_path ops s)]\<rparr>"
  by (simp add: LoadState_def emit_def Let_def)

lemma LoadState_bad_version:
  "files s (state_path ops s) = Some f \<Longrightarrow> FindBlock f ''Supermodel Save State'' \<Longrightarrow>
   formatVersion f \<noteq> STATE_FILE_VERSION \<Longrightarrow>
   LoadState ops s = s\<lparr>trace := trace s @ [BlockFile_Load (state_path ops s) True, BlockFile_Read,
     ErrorLog (state_path ops s @ '' is incompatible with this version of Supermodel.''),
     BlockFile_Destroy (state_path ops s)]\<rparr>"
  by (simp add: LoadState_def emit_def Let_def)



lemma LoadNVRAM_no_block:
  "files s (nvram_path ops s) = Some f \<Longrightarrow> \<not> FindBlock f ''Supermodel NVRAM State'' \<Longrightarrow>
   LoadNVRAM ops s = s\<lparr>trace := trace s @ [BlockFile_Load (nvram_path ops s) True,
     ErrorLog (nvram_path ops s @ '' does not appear to be a valid NVRAM file.''),
     BlockFile_Destroy (nvram_path ops s)]\<rparr>"
  by (simp add: LoadNVRAM_def emit_def Let_def)

lemma LoadNVRAM_bad_version:
  "files s (nvram_path ops s) = Some f \<Longrightarrow> FindBlock f ''Supermodel NVRAM State'' \<Longrightarrow>
   formatVersion f \<noteq> NVRAM_FILE_VERSION \<Longrightarrow>
   LoadNVRAM ops s = s\<lparr>trace := trace s @ [BlockFile_Load (nvram_path ops s) True, BlockFile_Read,
     ErrorLog (nvram_path ops s @ '' is incompatible with this version of Supermodel.''),
     BlockFile_Destroy (nvram_path ops s)]\<rparr>"
  by (simp add: LoadNVRAM_def emit_def Let_def)




lemma SaveNVRAM_fail:
  "\<not> creatable s (nvram_path ops s) \<Longrightarrow>
   SaveNVRAM ops s = s\<lparr>trace := trace s @ [BlockFile_Create (nvram_path ops s) False,
     ErrorLog (''Unable to save NVRAM to '' @ nvram_path ops s @ ''. Make sure directory exists!''),
     BlockFile_Destroy (nvram_path ops s)]\<rparr>"
  by (simp add: SaveNVRAM_def emit_def Let_def)

lemma SaveNVRAM_ok:
  "creatable s (nvram_path ops s) \<Longrightarrow>
   SaveNVRAM ops s = s\<lparr>
     files := (files s)(nvram_path ops s \<mapsto>
        \<lparr>blockName = ''Supermodel NVRAM State'',
         description = ''Supermodel Version '' @ SUPERMODEL_VERSION ops,
         formatVersion = NVRAM_FILE_VERSION,
         subjectId = m3_id ops (machine s),
         subBlocks = m3_SaveNVRAM ops (machine s)\<rparr>),
     trace := trace s @ [BlockFile_Create (nvram_path ops s) True, BlockFile_Write, BlockFile_Write,
       Model3_SaveNVRAM, BlockFile_Close (nvram_path ops s),
       BlockFile_Destroy (nvram_path ops s)]\<rparr>"
  by (simp add: SaveNVRAM_def emit_def Let_def)

lemma events_since_update [simp]:
  "events_since s (s\<lparr>trace := trace s @ evs\<rparr>) = evs"
  "events_since s (s\<lparr>machine := m, trace := trace s @ evs\<rparr>) = evs"
  "events_since s (s\<lparr>files := fs, trace := trace s @ evs\<rparr>) = evs"
  by (simp_all add: events_since_def)

lemma LoadState_header_mismatch:
  assumes "files s (state_path ops s) = Some f"
    and "\<not> FindBlock f ''Supermodel Save State'' \<or> formatVersion f \<noteq> STATE_FILE_VERSION"
  shows "machine (LoadState ops s) = machine s
        \<and> Model3_LoadState \<notin> set (events_since s (LoadState ops s))
        \<and> LoadState ops s = s\<lparr>trace := trace (LoadState ops s)\<rparr>"
proof (cases "FindBlock f ''Supermodel Save State''")
  case True
  with assms show ?thesis by (simp add: LoadState_bad_version)
next
  case False
  with assms show ?thesis by (simp add: LoadState_no_block)
qed

lemma LoadNVRAM_header_mismatch:
  assumes "files s (nvram_path ops s) = Some g"
    and "\<not> FindBlock g ''Supermodel NVRAM State'' \<or> formatVersion g \<noteq> NVRAM_FILE_VERSION"
  shows "machine (LoadNVRAM ops s) = machine s
        \<and> Model3_LoadNVRAM \<notin> set (events_since s (LoadNVRAM ops s))
        \<and> LoadNVRAM ops s = s\<lparr>trace := trace (LoadNVRAM ops s)\<rparr>"
proof (cases "FindBlock g ''Supermodel NVRAM State''")
  case True
  with assms show ?thesis by (simp add: LoadNVRAM_bad_version)
next
  case False
  with assms show ?thesis by (simp add: LoadNVRAM_no_block)
qed

text \<open>
  Claim C2. When the file that \<open>LoadState\<close> opens has no block of the expected name, or
  holds a format version other than \<open>STATE_FILE_VERSION\<close>, the machine's \<open>LoadState\<close> is
  not called, the machine is the one before the call, and nothing of the session changes but
  the trace. The same holds of \<open>LoadNVRAM\<close> with the NVRAM block name and
  \<open>NVRAM_FILE_VERSION\<close>.
\<close>

theorem header_mismatch_aborts_load:
  "(files s (state_path ops s) = Some f
      \<and> (\<not> FindBlock f ''Supermodel Save State'' \<or> formatVersion f \<noteq> STATE_FILE_VERSION)
    \<longrightarrow> machine (LoadState ops s) = machine s
        \<and> Model3_LoadState \<notin> set (events_since s (LoadState ops s))
        \<and> LoadState ops s = s\<lparr>trace := trace (LoadState ops s)\<rparr>)
   \<and> (files s (nvram_path ops s) = Some g
      \<and> (\<not> FindBlock g ''Supermodel NVRAM State'' \<or> formatVersion g \<noteq> NVRAM_FILE_VERSION)
    \<longrightarrow> machine (LoadNVRAM ops s) = machine s
        \<and> Model3_LoadNVRAM \<notin> set (events_since s (LoadNVRAM ops s))
        \<and> LoadNVRAM ops s = s\<lparr>trace := trace (LoadNVRAM ops s)\<rparr>)"
  using LoadState_header_mismatch [of s ops f] LoadNVRAM_header_mismatch [of s ops g]
  by blast

lemma stale_session_files:
  "files stale_session (state_path counter_ops stale_session) = Some stale_state"
  "files stale_session (nvram_path counter_ops stale_session) = Some misnamed_nvram"
  "files stale_session ''Saves/scud.st0'' = Some stale_state"
  "files stale_session ''NVRAM/scud.nv'' = Some misnamed_nvram"
  "state_path counter_ops stale_session = ''Saves/scud.st0''"
  "nvram_path counter_ops stale_session = ''NVRAM/scud.nv''"
  "machine stale_session = 7"
  by (simp_all add: stale_session_def state_path_def nvram_path_def counter_ops_def
        fresh_session_def show_d_0)

lemma stale_session_headers:
  "FindBlock stale_state ''Supermodel Save State''"
  "formatVersion stale_state \<noteq> STATE_FILE_VERSION"
  "\<not> FindBlock misnamed_nvram ''Supermodel NVRAM State''"
  by (simp_all add: stale_state_def misnamed_nvram_def FindBlock_def STATE_FILE_VERSION_def)

theorem header_mismatch_aborts_load_witness:
  "files stale_session (state_path counter_ops stale_session) = Some stale_state
   \<and> formatVersion stale_state \<noteq> STATE_FILE_VERSION
   \<and> files stale_session (nvram_path counter_ops stale_session) = Some misnamed_nvram
   \<and> \<not> FindBlock misnamed_nvram ''Supermodel NVRAM State''
   \<and> machine (LoadState counter_ops stale_session) = 7
   \<and> machine (LoadNVRAM counter_ops stale_session) = 7"
  using header_mismatch_aborts_load [of stale_session counter_ops stale_state misnamed_nvram]
  by (simp add: stale_session_files stale_session_headers)

subsection \<open>Container handles\<close>





text \<open>
  On the paths that pass both header checks, and in both save operations, the handle is
  already closed by the call of \<open>Close\<close> when the destructor runs. On the paths of
  \<open>LoadState\<close> and \<open>LoadNVRAM\<close> that fail the block name check or the version check there
  is no call of \<open>Close\<close>: the handle is open up to the return, where the destructor releases
  it.
\<close>

lemma LoadState_header_mismatch_no_Close:
  assumes "files s (state_path ops s) = Some f"
    and "\<not> FindBlock f ''Supermodel Save State'' \<or> formatVersion f \<noteq> STATE_FILE_VERSION"
  shows "BlockFile_Close (state_path ops s) \<notin> set (events_since s (LoadState ops s))
        \<and> handles_left_open (butlast (events_since s (LoadState ops s))) = [state_path ops s]"
proof (cases "FindBlock f ''Supermodel Save State''")
  case True
  with assms show ?thesis
    by (simp add: LoadState_bad_version handles_left_open_def handle_step_def)
next
  case False
  with assms show ?thesis
    by (simp add: LoadState_no_block handles_left_open_def handle_step_def)
qed

lemma LoadNVRAM_header_mismatch_no_Close:
  assumes "files s (nvram_path ops s) = Some g"
    and "\<not> FindBlock g ''Supermodel NVRAM State'' \<or> formatVersion g \<noteq> NVRAM_FILE_VERSION"
  shows "BlockFile_Close (nvram_path ops s) \<notin> set (events_since s (LoadNVRAM ops s))
        \<and> handles_left_open (butlast (events_since s (LoadNVRAM ops s))) = [nvram_path ops s]"
proof (cases "FindBlock g ''Supermodel NVRAM State''")
  case True
  with assms show ?thesis
    by (simp add: LoadNVRAM_bad_version handles_left_open_def handle_step_def)
next
  case False
  with assms show ?thesis
    by (simp add: LoadNVRAM_no_block handles_left_open_def handle_step_def)
qed




subsection \<open>What a step appends to the trace\<close>








lemma nvram_path_NVRAM: "take 6 (nvram_path ops s) = ''NVRAM/''"
  by (simp add: nvram_path_def)




lemma find_priority:
  "find P priority_order =
     (if P Cmd_Exit then Some Cmd_Exit
      else if P Cmd_Reset then Some Cmd_Reset
      else if P Cmd_TogglePause then Some Cmd_TogglePause
      else if P Cmd_SaveState then Some Cmd_SaveState
      else if P Cmd_ChangeSlot then Some Cmd_ChangeSlot
      else if P Cmd_LoadState then Some Cmd_LoadState
      else if P Cmd_DumpInputState then Some Cmd_DumpInputState
      else if P Cmd_ToggleCursor then Some Cmd_ToggleCursor
      else if P Cmd_ClearNVRAM then Some Cmd_ClearNVRAM
      else if P Cmd_ToggleThrottle then Some Cmd_ToggleThrottle
      else None)"
  by (simp add: priority_order_def)

lemma check_ui_selected:
  "check_ui ops i s = (case selected_command i s of None \<Rightarrow> s | Some c \<Rightarrow> apply_command ops c s)"
  by (simp add: check_ui_def selected_command_def find_priority)










subsection \<open>Command dispatch\<close>

lemma selected_command_paused: "selected_command i (s\<lparr>paused := b\<rparr>) = selected_command i s"
  by (simp add: selected_command_def find_priority)

lemma SaveState_paused: "SaveState ops (s\<lparr>paused := b\<rparr>) = (SaveState ops s)\<lparr>paused := b\<rparr>"
  by (simp add: SaveState_def state_path_def emit_def Let_def)

lemma LoadState_paused: "LoadState ops (s\<lparr>paused := b\<rparr>) = (LoadState ops s)\<lparr>paused := b\<rparr>"
  by (simp add: LoadState_def state_path_def emit_def Let_def split: option.split)

lemma apply_command_paused:
  "c \<noteq> Cmd_TogglePause \<Longrightarrow>
   apply_command ops c (s\<lparr>paused := b\<rparr>) = (apply_command ops c s)\<lparr>paused := b\<rparr>"
  by (cases c) (simp_all add: SaveState_paused LoadState_paused change_slot_def emit_def Let_def)

text \<open>
  Claim C4. An iteration calls \<open>check_ui\<close> once, after the poll, running or paused.
  \<open>check_ui\<close> applies no command, or the one command that is first asserted in the
  order Exit, Reset, TogglePause, SaveState, ChangeSlot, LoadState, DumpInputState,
  ToggleCursor, ClearNVRAM, ToggleThrottle, where ToggleCursor counts as asserted only in
  full screen mode. The selection does not look at the pause flag, and the effect of a
  command other than Exit, TogglePause and Reset is the same in a paused and in a running
  session.
\<close>

theorem check_ui_applies_first_asserted:
  "iteration ops i s =
     limit_frames ops (ticks i) (update_fps (ticks i) (check_ui ops i (poll_inputs i (run_frame ops s))))
   \<and> check_ui ops i s = (case selected_command i s of None \<Rightarrow> s | Some c \<Rightarrow> apply_command ops c s)
   \<and> selected_command i s =
       find (asserted i s)
         [Cmd_Exit, Cmd_Reset, Cmd_TogglePause, Cmd_SaveState, Cmd_ChangeSlot, Cmd_LoadState,
          Cmd_DumpInputState, Cmd_ToggleCursor, Cmd_ClearNVRAM, Cmd_ToggleThrottle]
   \<and> asserted i s Cmd_ToggleCursor = (uiToggleCursor i \<and> fullScreen s)
   \<and> selected_command i (s\<lparr>paused := b\<rparr>) = selected_command i s
   \<and> (c \<notin> {Cmd_Exit, Cmd_TogglePause, Cmd_Reset} \<longrightarrow>
        apply_command ops c (s\<lparr>paused := b\<rparr>) = (apply_command ops c s)\<lparr>paused := b\<rparr>)"
  using check_ui_selected [of ops i s] selected_command_paused [where i = i and s = s and b = b]
    apply_command_paused [where c = c and ops = ops and s = s and b = b]
  by (simp add: selected_command_def priority_order_def iteration_def)

theorem check_ui_applies_first_asserted_witness:
  "Cmd_SaveState \<notin> {Cmd_Exit, Cmd_TogglePause, Cmd_Reset}
   \<and> selected_command every_input fresh_session = Some Cmd_Exit
   \<and> check_ui counter_ops every_input fresh_session = fresh_session\<lparr>quit := True\<rparr>
   \<and> apply_command counter_ops Cmd_SaveState (fresh_session\<lparr>paused := True\<rparr>)
       = (apply_command counter_ops Cmd_SaveState fresh_session)\<lparr>paused := True\<rparr>"
  using check_ui_applies_first_asserted
    [where ops = counter_ops and i = every_input and s = fresh_session and b = True
       and c = Cmd_SaveState]
  by (simp add: every_input_def)

subsection \<open>Running, Paused, Quit\<close>

lemma quit_SaveState [simp]: "quit (SaveState ops s) = quit s"
  and paused_SaveState [simp]: "paused (SaveState ops s) = paused s"
  by (simp_all add: SaveState_def Let_def)

lemma quit_LoadState [simp]: "quit (LoadState ops s) = quit s"
  and paused_LoadState [simp]: "paused (LoadState ops s) = paused s"
  by (simp_all add: LoadState_def Let_def split: option.split)

lemma quit_change_slot [simp]: "quit (change_slot s) = quit s"
  and paused_change_slot [simp]: "paused (change_slot s) = paused s"
  by (simp_all add: change_slot_def Let_def)



lemma quit_run_frame [simp]: "quit (run_frame ops s) = quit s"
  and paused_run_frame [simp]: "paused (run_frame ops s) = paused s"
  by (simp_all add: run_frame_def)


lemma quit_update_fps [simp]: "quit (update_fps t s) = quit s"
  and paused_update_fps [simp]: "paused (update_fps t s) = paused s"
  by (simp_all add: update_fps_def Let_def)

lemma quit_limit_frames [simp]: "quit (limit_frames ops t s) = quit s"
  and paused_limit_frames [simp]: "paused (limit_frames ops t s) = paused s"
  by (simp_all add: limit_frames_def Let_def)








subsection \<open>The frame counter of the FPS display\<close>

lemma fps_fields_run_frame [simp]:
  "showFPS (run_frame ops s) = showFPS s"
  "fpsFramesElapsed (run_frame ops s) = fpsFramesElapsed s"
  "prevFPSTicks (run_frame ops s) = prevFPSTicks s"
  "titleStr (run_frame ops s) = titleStr s"
  by (simp_all add: run_frame_def)

lemma fps_fields_poll_inputs [simp]:
  "showFPS (poll_inputs i s) = showFPS s"
  "fpsFramesElapsed (poll_inputs i s) = fpsFramesElapsed s"
  "prevFPSTicks (poll_inputs i s) = prevFPSTicks s"
  "titleStr (poll_inputs i s) = titleStr s"
  by (simp_all add: poll_inputs_def Let_def)

lemma fps_fields_apply_command [simp]:
  "showFPS (apply_command ops c s) = showFPS s"
  "fpsFramesElapsed (apply_command ops c s) = fpsFramesElapsed s"
  "prevFPSTicks (apply_command ops c s) = prevFPSTicks s"
  "titleStr (apply_command ops c s) = titleStr s"
  by (cases c; simp add: SaveState_def LoadState_def change_slot_def Let_def split: option.split)+

lemma fps_fields_check_ui [simp]:
  "showFPS (check_ui ops i s) = showFPS s"
  "fpsFramesElapsed (check_ui ops i s) = fpsFramesElapsed s"
  "prevFPSTicks (check_ui ops i s) = prevFPSTicks s"
  "titleStr (check_ui ops i s) = titleStr s"
  by (simp_all add: check_ui_selected split: option.split)

lemma fps_fields_limit_frames [simp]:
  "showFPS (limit_frames ops t s) = showFPS s"
  "fpsFramesElapsed (limit_frames ops t s) = fpsFramesElapsed s"
  "prevFPSTicks (limit_frames ops t s) = prevFPSTicks s"
  by (simp_all add: limit_frames_def Let_def)

lemma update_fps_sample:
  "showFPS s \<Longrightarrow> 1000 \<le> t - prevFPSTicks s \<Longrightarrow>
   update_fps t s =
     s\<lparr>trace := trace s @
          [SDL_WM_SetCaption (titleStr s) (Some (fps_rate (fpsFramesElapsed s + 1) (t - prevFPSTicks s)))],
       prevFPSTicks := t, fpsFramesElapsed := 0\<rparr>"
  by (simp add: update_fps_def emit_def Let_def)

lemma update_fps_count:
  "showFPS s \<Longrightarrow> \<not> 1000 \<le> t - prevFPSTicks s \<Longrightarrow>
   update_fps t s = s\<lparr>fpsFramesElapsed := fpsFramesElapsed s + 1\<rparr>"
  by (simp add: update_fps_def Let_def)

lemma update_fps_off: "\<not> showFPS s \<Longrightarrow> update_fps t s = s"
  by (simp add: update_fps_def)






subsection \<open>Exit paths of the driver\<close>






lemma nvram_saves_append [simp]: "nvram_saves (a @ b) = nvram_saves a + nvram_saves b"
  by (simp add: nvram_saves_def)

lemma nvram_saves_Nil [simp]: "nvram_saves [] = 0"
  by (simp add: nvram_saves_def)

lemma nvram_saves_Cons [simp]:
  "nvram_saves (e # es) = (if is_nvram_save e then 1 else 0) + nvram_saves es"
  by (simp add: nvram_saves_def)

lemma is_nvram_save_simps [simp]:
  "is_nvram_save (BlockFile_Create p ok) = (take 6 p = ''NVRAM/'')"
  "\<not> is_nvram_save (ErrorLog m)"
  "\<not> is_nvram_save (Printf m)"
  "\<not> is_nvram_save (BlockFile_Load p ok)"
  "\<not> is_nvram_save BlockFile_Write"
  "\<not> is_nvram_save BlockFile_Read"
  "\<not> is_nvram_save (BlockFile_Close p)"
  "\<not> is_nvram_save (BlockFile_Destroy p)"
  "\<not> is_nvram_save Model3_SaveNVRAM"
  "\<not> is_nvram_save Model3_LoadNVRAM"
  "\<not> is_nvram_save Model3_Reset"
  "\<not> is_nvram_save Model3_AttachInputs"
  "\<not> is_nvram_save Model3_AttachRenderers"
  "\<not> is_nvram_save (SetMouseVisibility b)"
  "\<not> is_nvram_save (SDL_WM_SetCaption c r)"
  "\<not> is_nvram_save OpenAudio"
  "\<not> is_nvram_save CloseAudio"
  "\<not> is_nvram_save Delete_Model3"
  "\<not> is_nvram_save Delete_Render2D"
  "\<not> is_nvram_save Delete_Render3D"
  by (simp_all add: is_nvram_save_def)




lemma events_SaveNVRAM:
  "trace (SaveNVRAM ops s) = trace s @ events_since s (SaveNVRAM ops s)
   \<and> nvram_saves (events_since s (SaveNVRAM ops s)) = 1"
  by (cases "creatable s (nvram_path ops s)")
     (simp_all add: SaveNVRAM_ok SaveNVRAM_fail nvram_path_NVRAM)


lemma events_shut_down:
  "events_since s (shut_down ops s) =
     events_since s (SaveNVRAM ops s) @ [CloseAudio, Delete_Model3, Delete_Render2D, Delete_Render3D]"
proof -
  have "trace (shut_down ops s) =
     trace s @ (events_since s (SaveNVRAM ops s) @ [CloseAudio, Delete_Model3, Delete_Render2D, Delete_Render3D])"
    using events_SaveNVRAM [of ops s] by (simp add: shut_down_def)
  then show ?thesis
    by (simp add: events_since_def)
qed








lemma trace_start_loop [simp]: "trace (start_loop t s) = trace s"
  by (simp add: start_loop_def)









subsection \<open>Rounding to single precision\<close>

lemma rne_cases: "rne q = \<lfloor>q\<rfloor> \<or> rne q = \<lfloor>q\<rfloor> + 1"
  by (simp add: rne_def Let_def)

lemma rne_of_int [simp]: "rne (of_int k) = k"
  by (simp add: rne_def)

lemma rne_error: "\<bar>of_int (rne q) - q\<bar> \<le> 1 / 2"
proof -
  define d where "d = q - of_int \<lfloor>q\<rfloor>"
  have d: "0 \<le> d" "d < 1" "q = of_int \<lfloor>q\<rfloor> + d"
    unfolding d_def by linarith+
  consider "d < 1 / 2" | "1 / 2 < d" | "d = 1 / 2"
    by linarith
  then show ?thesis
  proof cases
    case 1
    then have "rne q = \<lfloor>q\<rfloor>"
      by (simp add: rne_def Let_def d_def)
    with 1 d show ?thesis by simp
  next
    case 2
    then have "rne q = \<lfloor>q\<rfloor> + 1"
      by (simp add: rne_def Let_def d_def)
    with 2 d show ?thesis by simp
  next
    case 3
    then have "rne q = \<lfloor>q\<rfloor> \<or> rne q = \<lfloor>q\<rfloor> + 1"
      by (rule_tac rne_cases)
    with 3 d show ?thesis by auto
  qed
qed

lemma rne_mono:
  assumes "q \<le> q'"
  shows "rne q \<le> rne q'"
proof (cases "\<lfloor>q\<rfloor> = \<lfloor>q'\<rfloor>")
  case True
  with assms show ?thesis
    by (auto simp add: rne_def Let_def)
next
  case False
  with assms have "\<lfloor>q\<rfloor> + 1 \<le> \<lfloor>q'\<rfloor>"
    using floor_mono [of q q'] by linarith
  moreover have "rne q \<le> \<lfloor>q\<rfloor> + 1" "\<lfloor>q'\<rfloor> \<le> rne q'"
    using rne_cases [of q] rne_cases [of q'] by auto
  ultimately show ?thesis
    by linarith
qed

lemma ilog2_bounds:
  assumes "0 < x"
  shows "2 powi (ilog2 x) \<le> x \<and> x < 2 powi (ilog2 x + 1)"
proof (cases "1 \<le> x")
  case True
  define n where "n = nat \<lfloor>x\<rfloor>"
  have n: "0 < n" "of_nat n \<le> x" "x < of_nat n + 1"
    using True by (simp_all add: n_def) linarith+
  define e where "e = floorlog 2 n - 1"
  have b: "2 ^ e \<le> n" "n < 2 ^ (e + 1)"
    using floorlog_bounds [of n 2] n(1) floorlog_eq_zero_iff [of 2 n] by (simp_all add: e_def)
  have il: "ilog2 x = int e"
    using True n(1) floorlog_eq_zero_iff [of 2 n]
    by (simp add: ilog2_def e_def n_def [symmetric] of_nat_diff)
  have "(of_nat (2 ^ e) :: rat) \<le> of_nat n"
    using b(1) by (rule of_nat_mono)
  then have "(2::rat) ^ e \<le> of_nat n"
    by (simp only: of_nat_power of_nat_numeral)
  then have lo: "(2::rat) ^ e \<le> x"
    using n(2) by linarith
  have "(of_nat (Suc n) :: rat) \<le> of_nat (2 ^ (e + 1))"
    using b(2) by (intro of_nat_mono) simp
  then have "(of_nat n :: rat) + 1 \<le> 2 ^ (e + 1)"
    by (simp only: of_nat_power of_nat_numeral of_nat_Suc)
  then have hi: "x < 2 ^ (e + 1)"
    using n(3) by linarith
  have "(2::rat) powi (int e) = 2 ^ e" "(2::rat) powi (int e + 1) = 2 ^ (e + 1)"
    by (simp_all add: power_int_add)
  with lo hi show ?thesis
    by (simp only: il)
next
  case False
  define y where "y = 1 / x"
  have y: "1 < y" "x = 1 / y"
    using False assms by (simp_all add: y_def)
  define n where "n = nat \<lfloor>y\<rfloor>"
  have n: "0 < n" "of_nat n \<le> y" "y < of_nat n + 1"
    using y(1) by (simp_all add: n_def) linarith+
  define k where "k = floorlog 2 n - 1"
  have b: "2 ^ k \<le> n" "n < 2 ^ (k + 1)"
    using floorlog_bounds [of n 2] n(1) floorlog_eq_zero_iff [of 2 n] by (simp_all add: k_def)
  have "(of_nat (2 ^ k) :: rat) \<le> of_nat n"
    using b(1) by (rule of_nat_mono)
  then have "(2::rat) ^ k \<le> of_nat n"
    by (simp only: of_nat_power of_nat_numeral)
  then have lo: "(2::rat) ^ k \<le> y"
    using n(2) by linarith
  have "(of_nat (Suc n) :: rat) \<le> of_nat (2 ^ (k + 1))"
    using b(2) by (intro of_nat_mono) simp
  then have "(of_nat n :: rat) + 1 \<le> 2 ^ (k + 1)"
    by (simp only: of_nat_power of_nat_numeral of_nat_Suc)
  then have hi: "y < 2 ^ (k + 1)"
    using n(3) by linarith
  have kk: "int (floorlog 2 (nat \<lfloor>1 / x\<rfloor>)) - 1 = int k"
    using n(1) floorlog_eq_zero_iff [of 2 n] by (simp add: k_def n_def y_def of_nat_diff)
  have "1 / 2 ^ (k + 1) < 1 / y"
    using hi y(1) by (intro divide_strict_left_mono) simp_all
  then have xlo: "1 / 2 ^ (k + 1) < x"
    by (simp only: y(2))
  have "1 / y \<le> 1 / 2 ^ k"
    using lo y(1) by (intro divide_left_mono) simp_all
  then have xhi: "x \<le> 1 / 2 ^ k"
    by (simp only: y(2))
  have p1: "(2::rat) powi (- int k) = 1 / 2 ^ k"
    by (simp add: power_int_minus field_simps)
  have "(2::rat) powi (- int k + 1) = 2 powi (- int k) * 2 powi 1"
    by (rule power_int_add) simp
  then have p2: "(2::rat) powi (- int k + 1) = 2 / 2 ^ k"
    by (simp only: p1) simp
  have "- int k - 1 = - int (k + 1)"
    by simp
  then have "(2::rat) powi (- int k - 1) = 2 powi (- int (k + 1))"
    by (simp only:)
  then have p3: "(2::rat) powi (- int k - 1) = 1 / 2 ^ (k + 1)"
    by (simp only: power_int_minus power_int_of_nat) (simp add: field_simps)
  have "- int k - 1 + 1 = - int k"
    by simp
  then have p4: "(2::rat) powi (- int k - 1 + 1) = 1 / 2 ^ k"
    by (simp only: p1)
  show ?thesis
  proof (cases "x * 2 ^ k = 1")
    case True
    then have il: "ilog2 x = - int k"
      using False kk by (simp add: ilog2_def Let_def)
    have xeq: "x = 1 / 2 ^ k"
      using True by (simp add: field_simps)
    have "(1::rat) / 2 ^ k < 2 / 2 ^ k"
      by (simp add: divide_strict_right_mono)
    then show ?thesis
      unfolding il p1 p2 using xeq by simp
  next
    case neq: False
    then have il: "ilog2 x = - int k - 1"
      using False kk by (simp add: ilog2_def Let_def)
    have "x \<noteq> 1 / 2 ^ k"
      using neq by (auto simp add: field_simps)
    then have "x < 1 / 2 ^ k"
      using xhi by linarith
    then show ?thesis
      unfolding il p3 p4 using xlo by simp
  qed
qed

lemma power_int_2_pos [simp]: "0 < (2::rat) powi e"
  by (simp add: zero_less_power_int)

lemma power_int_split:
  "(2::rat) powi e = 2 ^ 23 * 2 powi (e - 23)"
  "(2::rat) powi (e + 1) = 2 ^ 24 * 2 powi (e - 23)"
proof -
  have "(2::rat) powi (23 + (e - 23)) = 2 powi 23 * 2 powi (e - 23)"
    by (rule power_int_add) simp
  moreover have "23 + (e - 23) = e"
    by simp
  ultimately show "(2::rat) powi e = 2 ^ 23 * 2 powi (e - 23)"
    by simp
  have "(2::rat) powi (24 + (e - 23)) = 2 powi 24 * 2 powi (e - 23)"
    by (rule power_int_add) simp
  moreover have "24 + (e - 23) = e + 1"
    by simp
  ultimately show "(2::rat) powi (e + 1) = 2 ^ 24 * 2 powi (e - 23)"
    by simp
qed

lemma f32_0 [simp]: "f32 0 = 0"
  by (simp add: f32_def)

lemma f32_pos_eq:
  "0 < x \<Longrightarrow> f32 x = of_int (rne (x / 2 powi (ilog2 x - 23))) * 2 powi (ilog2 x - 23)"
  by (simp add: f32_def Let_def)

lemma mantissa_bounds:
  assumes "0 < x"
  shows "2 ^ 23 \<le> x / 2 powi (ilog2 x - 23) \<and> x / 2 powi (ilog2 x - 23) < 2 ^ 24"
proof -
  define e where "e = ilog2 x"
  have b: "2 powi e \<le> x" "x < 2 powi (e + 1)"
    using ilog2_bounds [OF assms] by (simp_all add: e_def)
  have s: "(2::rat) powi e = 2 ^ 23 * 2 powi (e - 23)"
    and s1: "(2::rat) powi (e + 1) = 2 ^ 24 * 2 powi (e - 23)"
    by (rule power_int_split)+
  have "2 ^ 23 * 2 powi (e - 23) \<le> x" "x < 2 ^ 24 * 2 powi (e - 23)"
    using b s s1 by simp_all
  then show ?thesis
    unfolding e_def [symmetric] by (simp add: pos_le_divide_eq pos_divide_less_eq)
qed

lemma f32_range:
  assumes "0 < x"
  shows "2 powi (ilog2 x) \<le> f32 x \<and> f32 x \<le> 2 powi (ilog2 x + 1)"
proof -
  define e where "e = ilog2 x"
  define m where "m = x / 2 powi (e - 23)"
  have m: "2 ^ 23 \<le> m" "m < 2 ^ 24"
    using mantissa_bounds [OF assms] by (simp_all add: m_def e_def)
  have "rne (of_int (2 ^ 23)) \<le> rne m" "rne m \<le> rne (of_int (2 ^ 24))"
    using m by (auto intro!: rne_mono)
  then have r: "2 ^ 23 \<le> rne m" "rne m \<le> 2 ^ 24"
    by (simp_all only: rne_of_int)
  then have r': "(2::rat) ^ 23 \<le> of_int (rne m)" "(of_int (rne m) :: rat) \<le> 2 ^ 24"
    by (metis of_int_le_iff of_int_numeral of_int_power)+
  have s: "(2::rat) powi e = 2 ^ 23 * 2 powi (e - 23)"
    and s1: "(2::rat) powi (e + 1) = 2 ^ 24 * 2 powi (e - 23)"
    by (rule power_int_split)+
  have f: "f32 x = of_int (rne m) * 2 powi (e - 23)"
    using assms by (simp add: f32_pos_eq m_def e_def)
  have "(2::rat) ^ 23 * 2 powi (e - 23) \<le> of_int (rne m) * 2 powi (e - 23)"
    using r'(1) by (intro mult_right_mono) simp_all
  moreover have "(of_int (rne m) :: rat) * 2 powi (e - 23) \<le> 2 ^ 24 * 2 powi (e - 23)"
    using r'(2) by (intro mult_right_mono) simp_all
  ultimately show ?thesis
    unfolding e_def [symmetric] f s s1 by simp
qed

lemma f32_pos: "0 < x \<Longrightarrow> 0 < f32 x"
  using f32_range [of x] power_int_2_pos [of "ilog2 x"] by linarith

lemma f32_nonneg: "0 \<le> x \<Longrightarrow> 0 \<le> f32 x"
  using f32_pos [of x] by (cases "x = 0") auto

lemma f32_error:
  assumes "0 < x"
  shows "\<bar>f32 x - x\<bar> \<le> x / 2 ^ 24"
proof -
  define e where "e = ilog2 x"
  define u where "u = (2::rat) powi (e - 23)"
  define m where "m = x / u"
  have u: "0 < u"
    by (simp add: u_def)
  have x: "x = m * u"
    using u by (simp add: m_def)
  have f: "f32 x = of_int (rne m) * u"
    using assms by (simp add: f32_pos_eq m_def u_def e_def)
  have "f32 x - x = (of_int (rne m) - m) * u"
    unfolding f using x by (simp add: algebra_simps)
  then have "\<bar>f32 x - x\<bar> = \<bar>of_int (rne m) - m\<bar> * u"
    using u by (simp add: abs_mult)
  also have "\<dots> \<le> (1 / 2) * u"
    using rne_error [of m] u by (intro mult_right_mono) simp_all
  finally have 1: "\<bar>f32 x - x\<bar> \<le> u / 2"
    by simp
  have "2 ^ 23 \<le> m"
    using mantissa_bounds [OF assms] by (simp add: m_def u_def e_def)
  then have "2 ^ 23 * u \<le> m * u"
    using u by (intro mult_right_mono) simp_all
  then have "u / 2 \<le> x / 2 ^ 24"
    by (simp add: x)
  with 1 show ?thesis
    by linarith
qed

lemma ilog2_mono:
  assumes "0 < x" and "x \<le> y"
  shows "ilog2 x \<le> ilog2 y"
proof (rule ccontr)
  assume "\<not> ilog2 x \<le> ilog2 y"
  then have "ilog2 y + 1 \<le> ilog2 x"
    by simp
  then have "(2::rat) powi (ilog2 y + 1) \<le> 2 powi (ilog2 x)"
    by (intro power_int_increasing) simp_all
  moreover have "2 powi (ilog2 x) \<le> x" "y < 2 powi (ilog2 y + 1)"
    using ilog2_bounds [of x] ilog2_bounds [of y] assms by simp_all
  ultimately show False
    using assms by linarith
qed

lemma f32_mono_pos:
  assumes "0 < x" and "x \<le> y"
  shows "f32 x \<le> f32 y"
proof (cases "ilog2 x = ilog2 y")
  case True
  have y: "0 < y"
    using assms by simp
  define u where "u = (2::rat) powi (ilog2 y - 23)"
  have u: "0 < u"
    by (simp add: u_def)
  have "x / u \<le> y / u"
    using assms u by (simp add: divide_right_mono)
  then have "rne (x / u) \<le> rne (y / u)"
    by (rule rne_mono)
  then have "(of_int (rne (x / u)) :: rat) \<le> of_int (rne (y / u))"
    by simp
  then have "of_int (rne (x / u)) * u \<le> of_int (rne (y / u)) * u"
    using u by (intro mult_right_mono) simp_all
  then show ?thesis
    using assms y True by (simp add: f32_pos_eq u_def)
next
  case False
  have y: "0 < y"
    using assms by simp
  have "ilog2 x \<le> ilog2 y"
    using assms by (rule ilog2_mono)
  with False have "ilog2 x + 1 \<le> ilog2 y"
    by simp
  then have "(2::rat) powi (ilog2 x + 1) \<le> 2 powi (ilog2 y)"
    by (intro power_int_increasing) simp_all
  moreover have "f32 x \<le> 2 powi (ilog2 x + 1)" "2 powi (ilog2 y) \<le> f32 y"
    using f32_range [OF assms(1)] f32_range [OF y] by simp_all
  ultimately show ?thesis
    by linarith
qed

lemma f32_mono:
  assumes "0 \<le> x" and "x \<le> y"
  shows "f32 x \<le> f32 y"
proof (cases "x = 0")
  case True
  then show ?thesis
    using assms f32_nonneg [of y] by simp
next
  case False
  with assms show ?thesis
    by (intro f32_mono_pos) simp_all
qed

lemma f32_exact:
  assumes "0 < m" and "m < 2 ^ 24"
  shows "f32 (of_nat m * 2 powi j) = of_nat m * 2 powi j"
proof -
  define x where "x = (of_nat m :: rat) * 2 powi j"
  have x: "0 < x"
    using assms(1) by (simp add: x_def)
  define e where "e = ilog2 x"
  have "(of_nat m :: rat) < of_nat (2 ^ 24)"
    using assms(2) by (simp only: of_nat_less_iff)
  then have m24: "(of_nat m :: rat) < 2 ^ 24"
    by simp
  have "x < 2 ^ 24 * 2 powi j"
    unfolding x_def using m24 by (intro mult_strict_right_mono) simp_all
  also have "(2::rat) ^ 24 * 2 powi j = 2 powi (24 + j)"
    using power_int_add [of "2::rat" 24 j] by simp
  finally have "x < (2::rat) powi (24 + j)" .
  moreover have "2 powi e \<le> x"
    using ilog2_bounds [OF x] by (simp add: e_def)
  ultimately have lt: "2 powi e < (2::rat) powi (24 + j)"
    by linarith
  have elt: "e < 24 + j"
  proof (rule ccontr)
    assume "\<not> e < 24 + j"
    then have "24 + j \<le> e"
      by simp
    then have "(2::rat) powi (24 + j) \<le> 2 powi e"
      by (intro power_int_increasing) simp_all
    with lt show False
      by linarith
  qed
  define d where "d = nat (j - (e - 23))"
  have d: "j - (e - 23) = int d"
    using elt by (simp add: d_def)
  have "j = int d + (e - 23)"
    using d by simp
  then have "(2::rat) powi j = 2 powi (int d + (e - 23))"
    by (simp only:)
  also have "\<dots> = 2 ^ d * 2 powi (e - 23)"
    using power_int_add [of "2::rat" "int d" "e - 23"] by simp
  finally have pj: "(2::rat) powi j = 2 ^ d * 2 powi (e - 23)" .
  have q: "x / 2 powi (e - 23) = of_int (int (m * 2 ^ d))"
    by (simp add: x_def pj)
  have "f32 x = of_int (rne (x / 2 powi (e - 23))) * 2 powi (e - 23)"
    using x by (simp add: f32_pos_eq e_def)
  also have "\<dots> = of_int (int (m * 2 ^ d)) * 2 powi (e - 23)"
    by (simp only: q rne_of_int)
  also have "\<dots> = x"
    by (simp add: x_def pj)
  finally show ?thesis
    by (simp add: x_def)
qed

lemma f32_of_nat:
  assumes "n < 2 ^ 24"
  shows "f32 (of_nat n) = of_nat n"
proof (cases "n = 0")
  case True
  then show ?thesis by simp
next
  case False
  then show ?thesis
    using f32_exact [of n 0] assms by simp
qed

lemma f32_of_u32_exact: "unat w < 2 ^ 24 \<Longrightarrow> f32_of_u32 w = of_nat (unat w)"
  unfolding f32_of_u32_def by (rule f32_of_nat)

lemma u32_of_f32_in_range:
  assumes "0 \<le> x" and "x < 2 ^ 32"
  shows "u32_of_f32 ops x = word_of_int \<lfloor>x\<rfloor>" and "unat (u32_of_f32 ops x) = nat \<lfloor>x\<rfloor>"
proof -
  have f: "0 \<le> \<lfloor>x\<rfloor>" "\<lfloor>x\<rfloor> < 2 ^ 32"
    using assms by (simp_all add: floor_less_iff)
  then show w: "u32_of_f32 ops x = word_of_int \<lfloor>x\<rfloor>"
    using assms by (simp add: u32_of_f32_def trunc_def)
  have "unat (word_of_int \<lfloor>x\<rfloor> :: u32) = nat (\<lfloor>x\<rfloor> mod 2 ^ 32)"
    by (simp add: unat_eq_nat_uint uint_word_of_int)
  then show "unat (u32_of_f32 ops x) = nat \<lfloor>x\<rfloor>"
    using f by (simp add: w)
qed

lemma f32_thousand:
  assumes "n \<le> 134217"
  shows "f32 (of_nat n * 1000) = of_nat n * 1000"
proof (cases "n = 0")
  case True
  then show ?thesis by simp
next
  case False
  have "f32 (of_nat (125 * n) * 2 powi 3) = of_nat (125 * n) * 2 powi 3"
    using False assms by (intro f32_exact) simp_all
  then show ?thesis
    by (simp add: mult.commute)
qed

lemma floor_f32_frame:
  assumes "n \<le> 134217"
  shows "\<lfloor>f32 (of_nat n * 1000 / 60)\<rfloor> = int (n * 1000 div 60)"
proof -
  define K where "K = n * 1000 div 60"
  define rem where "rem = n * 1000 mod 60"
  define q where "q = (of_nat n :: rat) * 1000 / 60"
  have "n * 1000 = 60 * K + rem"
    by (simp only: K_def rem_def mult_div_mod_eq)
  then have "(of_nat (n * 1000) :: rat) = of_nat (60 * K + rem)"
    by (simp only:)
  then have q: "q = of_nat K + of_nat rem / 60"
    by (simp add: q_def)
  have "n * 1000 mod 60 = 20 * ((n * 50) mod 3)"
    using mult_mod_right [of 20 "n * 50" 3] by (simp add: mult.commute mult.left_commute)
  then have r: "rem = 0 \<or> (20 \<le> rem \<and> rem \<le> 40)"
    unfolding rem_def by (cases "(n * 50) mod 3 = 0") auto
  have Kb: "K \<le> 2236950"
    using assms by (simp add: K_def)
  show ?thesis
  proof (cases "rem = 0")
    case True
    then have "q = of_nat K"
      by (simp add: q)
    moreover have "f32 (of_nat K) = of_nat K"
      using Kb by (intro f32_of_nat) simp
    ultimately have "\<lfloor>f32 q\<rfloor> = int K"
      by simp
    then show ?thesis
      unfolding q_def K_def .
  next
    case False
    with r have rb: "(20::rat) \<le> of_nat rem" "(of_nat rem :: rat) \<le> 40"
      by simp_all
    have qpos: "0 < q"
      using rb by (simp add: q add_pos_nonneg)
    have "(of_nat K :: rat) \<le> 2236950"
      using Kb by (metis of_nat_le_iff of_nat_numeral)
    then have qb: "q \<le> 2236951"
      using rb by (simp add: q)
    have err: "\<bar>f32 q - q\<bar> \<le> q / 2 ^ 24"
      using qpos by (rule f32_error)
    have small: "q / 2 ^ 24 < 1 / 6"
      using qb by simp
    define rho where "rho = (of_nat rem :: rat) / 60"
    have rho: "1 / 3 \<le> rho" "rho \<le> 2 / 3" "q = of_nat K + rho"
      using rb by (simp_all add: rho_def q)
    have "f32 q - q \<le> q / 2 ^ 24" "q - f32 q \<le> q / 2 ^ 24"
      using err by linarith+
    with small rho have "of_nat K < f32 q" "f32 q < of_nat K + 1"
      by linarith+
    then have "of_int (int K) < f32 q" "f32 q < of_int (int K) + 1"
      by simp_all
    then have "\<lfloor>f32 q\<rfloor> = int K"
      by (intro floor_unique) simp_all
    then show ?thesis
      unfolding q_def K_def .
  qed
qed

lemma frame_offset_exact:
  assumes "unat n \<le> 134217"
  shows "frame_offset ops n = word_of_nat (unat n * 1000 div 60)"
proof -
  define N where "N = unat n"
  define v where "v = f32 (of_nat N * 1000 / 60)"
  have N: "N \<le> 134217"
    using assms by (simp add: N_def)
  have a: "f32_of_u32 n = of_nat N"
    unfolding N_def using assms by (intro f32_of_u32_exact) simp
  have fo: "frame_offset ops n = u32_of_f32 ops v"
    unfolding frame_offset_def a v_def using f32_thousand [OF N] by (simp only:)
  have fl: "\<lfloor>v\<rfloor> = int (N * 1000 div 60)"
    unfolding v_def using N by (rule floor_f32_frame)
  have "(0::rat) \<le> of_nat N * 1000 / 60"
    by simp
  then have "0 \<le> v"
    unfolding v_def by (rule f32_nonneg)
  moreover have "v < 2 ^ 32"
  proof -
    have "\<lfloor>v\<rfloor> < 2 ^ 32"
      using N by (simp add: fl)
    then show ?thesis
      by (simp add: floor_less_iff)
  qed
  ultimately have "u32_of_f32 ops v = word_of_int \<lfloor>v\<rfloor>"
    by (rule u32_of_f32_in_range)
  then have "frame_offset ops n = word_of_nat (N * 1000 div 60)"
    by (simp add: fo fl)
  then show ?thesis
    unfolding N_def .
qed

lemma frame_offset_1: "frame_offset ops 1 = 16"
  using frame_offset_exact [of 1 ops] by simp

subsection \<open>The FPS sample\<close>

lemma fps_rate_exact:
  assumes "unat n * unat el < 2 ^ 24"
  shows "fps_rate n el = f32 (of_nat (unat n * unat el) / 1000)"
proof (cases "unat n = 0 \<or> unat el = 0")
  case True
  then have "n = 0 \<or> el = 0"
    by (simp add: unat_eq_0)
  then show ?thesis
    by (auto simp add: fps_rate_def f32_of_u32_def)
next
  case False
  define N where "N = unat n"
  define E where "E = unat el"
  have pos: "0 < N" "0 < E"
    using False by (simp_all add: N_def E_def)
  have prod: "N * E < 2 ^ 24"
    using assms by (simp add: N_def E_def)
  have "N * 1 \<le> N * E"
    using pos(2) by (intro mult_le_mono2) simp
  moreover have "1 * E \<le> N * E"
    using pos(1) by (intro mult_le_mono1) simp
  ultimately have "N \<le> N * E" "E \<le> N * E"
    by simp_all
  with prod have "N < 2 ^ 24" "E < 2 ^ 24"
    by linarith+
  then have c: "f32_of_u32 n = of_nat N" "f32_of_u32 el = of_nat E"
    unfolding N_def E_def by (simp_all only: f32_of_u32_exact)
  have "f32 (of_nat (N * E)) = of_nat (N * E)"
    using prod by (rule f32_of_nat)
  then have "f32 (of_nat N * of_nat E) = of_nat (N * E)"
    by (simp only: of_nat_mult)
  then have "fps_rate n el = f32 (of_nat (N * E) / 1000)"
    unfolding fps_rate_def c by (simp only:)
  then show ?thesis
    unfolding N_def E_def .
qed

lemma fps_rate_30_2000: "fps_rate 30 2000 = 60"
proof -
  have "fps_rate 30 2000 = f32 (of_nat (unat (30::u32) * unat (2000::u32)) / 1000)"
    by (rule fps_rate_exact) simp
  also have "\<dots> = f32 (of_nat 60)"
    by simp
  also have "\<dots> = of_nat 60"
    by (rule f32_of_nat) simp
  finally show ?thesis
    by simp
qed

text \<open>
  Claim C8. With the FPS display enabled, \<open>update_fps\<close> adds one to the frame counter; when
  the ticks elapsed since the last sample (in 32-bit arithmetic) are at least 1000 it sets
  the caption with the rate \<open>frames * elapsed / 1000\<close>, computed in single precision from
  the incremented counter, and resets the sample tick to the current tick and the counter
  to 0; otherwise it only keeps the incremented counter. With the display disabled it does
  nothing. The rate is the product of frames and elapsed seconds: 30 frames in 2000 ms
  are shown as 60, where frames per second would be 15.
\<close>

theorem update_fps_sample_window:
  "(showFPS s \<and> 1000 \<le> t - prevFPSTicks s \<longrightarrow>
      update_fps t s =
        s\<lparr>trace := trace s @
             [SDL_WM_SetCaption (titleStr s)
                (Some (fps_rate (fpsFramesElapsed s + 1) (t - prevFPSTicks s)))],
          prevFPSTicks := t, fpsFramesElapsed := 0\<rparr>)
   \<and> (showFPS s \<and> \<not> 1000 \<le> t - prevFPSTicks s \<longrightarrow>
      update_fps t s = s\<lparr>fpsFramesElapsed := fpsFramesElapsed s + 1\<rparr>)
   \<and> (\<not> showFPS s \<longrightarrow> update_fps t s = s)
   \<and> fps_rate n el = f32 (f32 (f32_of_u32 n * f32_of_u32 el) / 1000)
   \<and> (unat n * unat el < 2 ^ 24 \<longrightarrow> fps_rate n el = f32 (of_nat (unat n * unat el) / 1000))
   \<and> fps_rate 30 2000 = 60 \<and> (30::rat) / (2000 / 1000) = 15"
  using update_fps_sample [of s t] update_fps_count [of s t] update_fps_off [of s t]
    fps_rate_exact [of n el] fps_rate_30_2000
  by (simp add: fps_rate_def)

theorem update_fps_sample_window_witness:
  "showFPS fresh_session \<and> 1000 \<le> (2000::u32) - prevFPSTicks fresh_session
   \<and> unat (30::u32) * unat (2000::u32) < 2 ^ 24
   \<and> update_fps 2000 (fresh_session\<lparr>fpsFramesElapsed := 29\<rparr>) =
        fresh_session\<lparr>fpsFramesElapsed := 0, prevFPSTicks := 2000,
          trace := [SDL_WM_SetCaption ''Supermodel - Scud Race'' (Some 60)]\<rparr>
   \<and> \<not> 1000 \<le> (999::u32) - prevFPSTicks fresh_session
   \<and> update_fps 999 (fresh_session\<lparr>fpsFramesElapsed := 29\<rparr>) = fresh_session\<lparr>fpsFramesElapsed := 30\<rparr>
   \<and> update_fps 2000 (fresh_session\<lparr>showFPS := False\<rparr>) = fresh_session\<lparr>showFPS := False\<rparr>"
proof -
  let ?s = "fresh_session\<lparr>fpsFramesElapsed := 29\<rparr>"
  have f: "showFPS ?s" "prevFPSTicks ?s = 0" "fpsFramesElapsed ?s = 29" "trace ?s = []"
    "titleStr ?s = ''Supermodel - Scud Race''" "showFPS fresh_session" "prevFPSTicks fresh_session = 0"
    "\<not> showFPS (fresh_session\<lparr>showFPS := False\<rparr>)"
    by (simp_all add: fresh_session_def)
  have "update_fps 2000 ?s =
        ?s\<lparr>trace := trace ?s @ [SDL_WM_SetCaption (titleStr ?s) (Some (fps_rate 30 2000))],
          prevFPSTicks := 2000, fpsFramesElapsed := 0\<rparr>
        \<and> fps_rate 30 2000 = 60"
    using update_fps_sample_window [where s = ?s and t = 2000 and n = 30 and el = 2000] f by simp
  moreover have "update_fps 999 ?s = ?s\<lparr>fpsFramesElapsed := 30\<rparr>"
    using update_fps_sample_window [where s = ?s and t = 999 and n = 30 and el = 2000] f by simp
  moreover have "update_fps 2000 (fresh_session\<lparr>showFPS := False\<rparr>) = fresh_session\<lparr>showFPS := False\<rparr>"
    using update_fps_sample_window
      [where s = "fresh_session\<lparr>showFPS := False\<rparr>" and t = 2000 and n = 30 and el = 2000] f(8)
    by blast
  ultimately show ?thesis
    by (simp add: f)
qed

subsection \<open>Frame limiting\<close>

lemma limit_frames_wait:
  assumes "paused s \<or> throttle s"
    and "t \<le> startTicks s + frame_offset ops (framesElapsed s + 1)"
  shows "limit_frames ops t s =
     s\<lparr>framesElapsed := framesElapsed s + 1,
       trace := trace s @ [SDL_Delay (startTicks s + frame_offset ops (framesElapsed s + 1) - t)]\<rparr>"
  using assms by (simp add: limit_frames_def emit_def Let_def)

lemma limit_frames_reset:
  assumes "paused s \<or> throttle s"
    and "\<not> t \<le> startTicks s + frame_offset ops (framesElapsed s + 1)"
  shows "limit_frames ops t s = s\<lparr>framesElapsed := 0, startTicks := t\<rparr>"
  using assms by (simp add: limit_frames_def Let_def)

lemma limit_frames_off: "\<not> paused s \<Longrightarrow> \<not> throttle s \<Longrightarrow> limit_frames ops t s = s"
  by (simp add: limit_frames_def)

lemma limit_frames_after_reset:
  assumes "paused s \<or> throttle s"
    and "unat t + 16 < 2 ^ 32" and "unat t' \<le> unat t + 16"
  shows "limit_frames ops t' (s\<lparr>framesElapsed := 0, startTicks := t\<rparr>) =
     s\<lparr>framesElapsed := 1, startTicks := t, trace := trace s @ [SDL_Delay (t + 16 - t')]\<rparr>"
proof -
  let ?s = "s\<lparr>framesElapsed := 0, startTicks := t\<rparr>"
  have "unat (t + 16) = unat t + 16"
    using assms(2) by (simp add: unat_word_ariths)
  then have "t' \<le> t + 16"
    using assms(3) by (simp add: word_le_nat_alt)
  then have "t' \<le> startTicks ?s + frame_offset ops (framesElapsed ?s + 1)"
    by (simp add: frame_offset_1)
  moreover have "paused ?s \<or> throttle ?s"
    using assms(1) by simp
  ultimately have "limit_frames ops t' ?s =
     ?s\<lparr>framesElapsed := framesElapsed ?s + 1,
       trace := trace ?s @ [SDL_Delay (startTicks ?s + frame_offset ops (framesElapsed ?s + 1) - t')]\<rparr>"
    by (rule limit_frames_wait [rotated])
  then show ?thesis
    by (simp add: frame_offset_1)
qed

text \<open>
  Claim C5, as the code has it. While paused or throttled, the limiter first increments the
  frame index; the target is \<open>startTicks\<close> plus the index times 1000/60, computed in single
  precision and truncated (the exact quotient up to index 134217), all in 32-bit unsigned
  arithmetic. If the current tick is at most the target it delays for exactly the
  difference; otherwise it sets the frame index to 0 and \<open>startTicks\<close> to the current tick,
  and the old epoch and index play no part afterwards. After such a reset at tick \<open>t\<close> the
  next paced iteration, if it comes within 16 ms and \<open>t + 16\<close> does not wrap around
  \<open>2^32\<close>, delays until \<open>t + 16\<close>: no second frame runs undelayed. Without pause or
  throttle the limiter does nothing.
\<close>

theorem limit_frames_pacing:
  "(paused s \<or> throttle s \<longrightarrow>
      (t \<le> startTicks s + frame_offset ops (framesElapsed s + 1) \<longrightarrow>
         limit_frames ops t s =
           s\<lparr>framesElapsed := framesElapsed s + 1,
             trace := trace s @
               [SDL_Delay (startTicks s + frame_offset ops (framesElapsed s + 1) - t)]\<rparr>)
      \<and> (\<not> t \<le> startTicks s + frame_offset ops (framesElapsed s + 1) \<longrightarrow>
         limit_frames ops t s = s\<lparr>framesElapsed := 0, startTicks := t\<rparr>)
      \<and> (unat t + 16 < 2 ^ 32 \<and> unat t' \<le> unat t + 16 \<longrightarrow>
         limit_frames ops t' (s\<lparr>framesElapsed := 0, startTicks := t\<rparr>) =
           s\<lparr>framesElapsed := 1, startTicks := t,
             trace := trace s @ [SDL_Delay (t + 16 - t')]\<rparr>))
   \<and> (\<not> paused s \<and> \<not> throttle s \<longrightarrow> limit_frames ops t s = s)
   \<and> frame_offset ops n = u32_of_f32 ops (f32 (f32 (f32_of_u32 n * 1000) / 60))
   \<and> (unat n \<le> 134217 \<longrightarrow> frame_offset ops n = word_of_nat (unat n * 1000 div 60))"
  using limit_frames_wait [of s t ops] limit_frames_reset [of s t ops] limit_frames_off [of s ops t]
    limit_frames_after_reset [of s t t' ops] frame_offset_exact [of n ops]
  by (simp add: frame_offset_def)

theorem limit_frames_pacing_witness:
  "(paused stalled_session \<or> throttle stalled_session)
   \<and> \<not> (1550::u32) \<le> startTicks stalled_session + frame_offset counter_ops (framesElapsed stalled_session + 1)
   \<and> unat (1550::u32) + 16 < 2 ^ 32 \<and> unat (1551::u32) \<le> unat (1550::u32) + 16
   \<and> unat (4::u32) \<le> 134217
   \<and> limit_frames counter_ops 1550 stalled_session = stalled_session\<lparr>framesElapsed := 0, startTicks := 1550\<rparr>
   \<and> limit_frames counter_ops 1551 (limit_frames counter_ops 1550 stalled_session) =
        stalled_session\<lparr>framesElapsed := 1, startTicks := 1550, trace := [SDL_Delay 15]\<rparr>
   \<and> (1060::u32) \<le> startTicks stalled_session + frame_offset counter_ops (framesElapsed stalled_session + 1)
   \<and> limit_frames counter_ops 1060 stalled_session =
        stalled_session\<lparr>framesElapsed := 4, trace := [SDL_Delay 6]\<rparr>
   \<and> limit_frames counter_ops 1550 (stalled_session\<lparr>throttle := False\<rparr>) = stalled_session\<lparr>throttle := False\<rparr>"
proof -
  have f: "throttle stalled_session" "startTicks stalled_session = 1000"
    "framesElapsed stalled_session = 3" "trace stalled_session = []"
    "\<not> paused (stalled_session\<lparr>throttle := False\<rparr>)" "\<not> throttle (stalled_session\<lparr>throttle := False\<rparr>)"
    by (simp_all add: stalled_session_def fresh_session_def)
  have o: "frame_offset counter_ops 4 = 66"
    using frame_offset_exact [of 4 counter_ops] by simp
  have 1: "limit_frames counter_ops 1550 stalled_session = stalled_session\<lparr>framesElapsed := 0, startTicks := 1550\<rparr>
   \<and> limit_frames counter_ops 1551 (limit_frames counter_ops 1550 stalled_session) =
        stalled_session\<lparr>framesElapsed := 1, startTicks := 1550, trace := [SDL_Delay 15]\<rparr>"
    using limit_frames_pacing
      [where s = stalled_session and t = 1550 and t' = 1551 and ops = counter_ops and n = 4]
    by (simp add: f o)
  have 2: "limit_frames counter_ops 1060 stalled_session =
        stalled_session\<lparr>framesElapsed := 4, trace := [SDL_Delay 6]\<rparr>"
    using limit_frames_pacing
      [where s = stalled_session and t = 1060 and t' = 1551 and ops = counter_ops and n = 4]
    by (simp add: f o)
  have 3: "limit_frames counter_ops 1550 (stalled_session\<lparr>throttle := False\<rparr>) = stalled_session\<lparr>throttle := False\<rparr>"
    using limit_frames_pacing
      [where s = "stalled_session\<lparr>throttle := False\<rparr>" and t = 1550 and t' = 1551
         and ops = counter_ops and n = 4] f(5,6)
    by blast
  have 4: "(paused stalled_session \<or> throttle stalled_session)
   \<and> \<not> (1550::u32) \<le> startTicks stalled_session + frame_offset counter_ops (framesElapsed stalled_session + 1)
   \<and> unat (1550::u32) + 16 < 2 ^ 32 \<and> unat (1551::u32) \<le> unat (1550::u32) + 16
   \<and> unat (4::u32) \<le> 134217
   \<and> (1060::u32) \<le> startTicks stalled_session + frame_offset counter_ops (framesElapsed stalled_session + 1)"
    by (simp add: f o)
  show ?thesis
    using 1 2 3 4 by blast
qed

text \<open>
  Claim C5 as stated fails when the tick counter is about to wrap around. A session that
  stalled 500 ms is reset at tick \<open>2^32 - 10\<close>; the target of the next frame, 16 ms later,
  wraps around to 6, so that the iterations one and two milliseconds after the reset find the
  tick beyond the target and run undelayed as well.
\<close>

theorem limit_frames_wraparound_burst:
  "limit_frames counter_ops 4294967286 (fresh_session\<lparr>startTicks := 4294966786\<rparr>)
     = fresh_session\<lparr>framesElapsed := 0, startTicks := 4294967286\<rparr>
   \<and> limit_frames counter_ops 4294967287 (fresh_session\<lparr>framesElapsed := 0, startTicks := 4294967286\<rparr>)
     = fresh_session\<lparr>framesElapsed := 0, startTicks := 4294967287\<rparr>
   \<and> limit_frames counter_ops 4294967288 (fresh_session\<lparr>framesElapsed := 0, startTicks := 4294967287\<rparr>)
     = fresh_session\<lparr>framesElapsed := 0, startTicks := 4294967288\<rparr>
   \<and> trace (fresh_session\<lparr>framesElapsed := 0, startTicks := 4294967288\<rparr>) = []"
proof -
  have f: "throttle (fresh_session\<lparr>startTicks := x\<rparr>)"
    "throttle (fresh_session\<lparr>framesElapsed := 0, startTicks := x\<rparr>)"
    "framesElapsed (fresh_session\<lparr>startTicks := x\<rparr>) = 0" for x
    by (simp_all add: fresh_session_def)
  have 1: "limit_frames counter_ops 4294967286 (fresh_session\<lparr>startTicks := 4294966786\<rparr>)
     = (fresh_session\<lparr>startTicks := 4294966786\<rparr>)\<lparr>framesElapsed := 0, startTicks := 4294967286\<rparr>"
    by (rule limit_frames_reset) (simp_all add: f frame_offset_1)
  have 2: "limit_frames counter_ops 4294967287 (fresh_session\<lparr>framesElapsed := 0, startTicks := 4294967286\<rparr>)
     = (fresh_session\<lparr>framesElapsed := 0, startTicks := 4294967286\<rparr>)\<lparr>framesElapsed := 0, startTicks := 4294967287\<rparr>"
    by (rule limit_frames_reset) (simp_all add: f frame_offset_1)
  have 3: "limit_frames counter_ops 4294967288 (fresh_session\<lparr>framesElapsed := 0, startTicks := 4294967287\<rparr>)
     = (fresh_session\<lparr>framesElapsed := 0, startTicks := 4294967287\<rparr>)\<lparr>framesElapsed := 0, startTicks := 4294967288\<rparr>"
    by (rule limit_frames_reset) (simp_all add: f frame_offset_1)
  show ?thesis
    using 1 2 3 by (simp add: fresh_session_def)
qed

subsection \<open>Aspect ratio\<close>

lemma model3Ratio_val: "model3Ratio = 10835285 / 8388608"
  by code_simp

lemma model3Ratio_pos: "0 < model3Ratio"
  by (simp add: model3Ratio_val)

lemma fix_aspect_cases:
  "fix_aspect (X, Y) =
     (if Y < f32 (X / model3Ratio) then (f32 (Y * model3Ratio), Y)
      else if X < f32 (Y * model3Ratio) then (X, f32 (X / model3Ratio))
      else (X, Y))"
  by (simp add: fix_aspect_def Let_def)

lemma fix_aspect_le:
  assumes "0 \<le> X" and "0 \<le> Y" and "f32 X = X" and "f32 Y = Y"
  shows "fst (fix_aspect (X, Y)) \<le> X \<and> snd (fix_aspect (X, Y)) \<le> Y
       \<and> 0 \<le> fst (fix_aspect (X, Y)) \<and> 0 \<le> snd (fix_aspect (X, Y))"
proof (cases "Y < f32 (X / model3Ratio)")
  case True
  have "f32 (Y * model3Ratio) \<le> X"
  proof (rule ccontr)
    assume n: "\<not> f32 (Y * model3Ratio) \<le> X"
    have "\<not> Y * model3Ratio \<le> X"
    proof
      assume "Y * model3Ratio \<le> X"
      moreover have "0 \<le> Y * model3Ratio"
        using assms(2) model3Ratio_pos by simp
      ultimately have "f32 (Y * model3Ratio) \<le> f32 X"
        by (intro f32_mono)
      with n assms(3) show False by simp
    qed
    then have "X / model3Ratio \<le> Y"
      using model3Ratio_pos by (simp add: pos_divide_le_eq)
    moreover have "0 \<le> X / model3Ratio"
      using assms(1) model3Ratio_pos by simp
    ultimately have "f32 (X / model3Ratio) \<le> f32 Y"
      by (intro f32_mono)
    with True assms(4) show False by simp
  qed
  moreover have "0 \<le> f32 (Y * model3Ratio)"
    using assms(2) model3Ratio_pos by (intro f32_nonneg) simp
  ultimately show ?thesis
    using True assms by (simp add: fix_aspect_cases)
next
  case False
  have "0 \<le> f32 (X / model3Ratio)"
    using assms(1) model3Ratio_pos by (intro f32_nonneg) simp
  with False assms show ?thesis
    by (simp add: fix_aspect_cases)
qed

lemma f32_bounds:
  assumes "0 \<le> x"
  shows "x - x / 2 ^ 24 \<le> f32 x \<and> f32 x \<le> x + x / 2 ^ 24"
proof (cases "x = 0")
  case True
  then show ?thesis by simp
next
  case False
  with assms have "\<bar>f32 x - x\<bar> \<le> x / 2 ^ 24"
    by (intro f32_error) simp
  then show ?thesis
    by linarith
qed

lemma width_shrunk_bounds:
  fixes v :: rat and rw h :: int
  assumes "0 \<le> h" and "h < 262144"
    and "of_int h * (10835285 / 8388608) - of_int h * (10835285 / 8388608) / 2 ^ 24 \<le> v"
    and "v \<le> of_int h * (10835285 / 8388608) + of_int h * (10835285 / 8388608) / 2 ^ 24"
    and "of_int rw \<le> v" and "v < of_int rw + 1"
  shows "24 * rw \<le> 31 * h \<and> 31 * h - 24 \<le> 24 * rw"
proof -
  define H where "H = (of_int h :: rat)"
  have H: "0 \<le> H" "H < 262144"
    using assms(1,2) by (simp_all add: H_def)
  define R where "R = (of_int rw :: rat)"
  have "24 * R < 31 * H + 1" "31 * H - 25 < 24 * R"
    using assms(3-6) H unfolding H_def [symmetric] R_def [symmetric] by (simp_all add: field_simps)
  then have "(of_int (24 * rw) :: rat) < of_int (31 * h + 1)" "(of_int (31 * h - 25) :: rat) < of_int (24 * rw)"
    by (simp_all add: H_def R_def)
  then have "24 * rw < 31 * h + 1" "31 * h - 25 < 24 * rw"
    by (simp_all only: of_int_less_iff)
  then show ?thesis
    by simp
qed

lemma height_shrunk_bounds:
  fixes v :: rat and rh w :: int
  assumes "0 \<le> w" and "w < 262144"
    and "of_int w / (10835285 / 8388608) - of_int w / (10835285 / 8388608) / 2 ^ 24 \<le> v"
    and "v \<le> of_int w / (10835285 / 8388608) + of_int w / (10835285 / 8388608) / 2 ^ 24"
    and "of_int rh \<le> v" and "v < of_int rh + 1"
  shows "31 * rh \<le> 24 * w \<and> 24 * w - 31 \<le> 31 * rh"
proof -
  define W where "W = (of_int w :: rat)"
  have W: "0 \<le> W" "W < 262144"
    using assms(1,2) by (simp_all add: W_def)
  define R where "R = (of_int rh :: rat)"
  have "31 * R < 24 * W + 1" "24 * W - 32 < 31 * R"
    using assms(3-6) W unfolding W_def [symmetric] R_def [symmetric] by (simp_all add: field_simps)
  then have "(of_int (31 * rh) :: rat) < of_int (24 * w + 1)" "(of_int (24 * w - 32) :: rat) < of_int (31 * rh)"
    by (simp_all add: W_def R_def)
  then have "31 * rh < 24 * w + 1" "24 * w - 32 < 31 * rh"
    by (simp_all only: of_int_less_iff)
  then show ?thesis
    by simp
qed

lemma unshrunk_bounds:
  fixes w h :: int
  assumes "0 \<le> w" and "w < 262144" and "0 \<le> h" and "h < 262144"
    and "of_int w / (10835285 / 8388608) - of_int w / (10835285 / 8388608) / 2 ^ 24 \<le> (of_int h :: rat)"
    and "of_int h * (10835285 / 8388608) - of_int h * (10835285 / 8388608) / 2 ^ 24 \<le> (of_int w :: rat)"
  shows "24 * w = 31 * h"
proof -
  define W where "W = (of_int w :: rat)"
  define H where "H = (of_int h :: rat)"
  have b: "0 \<le> W" "W < 262144" "0 \<le> H" "H < 262144"
    using assms(1-4) by (simp_all add: W_def H_def)
  have "24 * W < 31 * H + 1" "31 * H < 24 * W + 1"
    using assms(5,6) b unfolding W_def [symmetric] H_def [symmetric] by (simp_all add: field_simps)
  then have "(of_int (24 * w) :: rat) < of_int (31 * h + 1)" "(of_int (31 * h) :: rat) < of_int (24 * w + 1)"
    by (simp_all add: W_def H_def)
  then have "24 * w < 31 * h + 1" "31 * h < 24 * w + 1"
    by (simp_all only: of_int_less_iff)
  then show ?thesis
    by simp
qed

lemma fix_aspect_geometry:
  assumes "w < 262144" and "h < 262144"
  defines "p \<equiv> fix_aspect (of_nat w, of_nat h)"
  shows "0 \<le> fst p \<and> 0 \<le> snd p \<and> fst p \<le> of_nat w \<and> snd p \<le> of_nat h
       \<and> (fst p = of_nat w \<or> snd p = of_nat h)
       \<and> 31 * \<lfloor>snd p\<rfloor> \<le> 24 * \<lfloor>fst p\<rfloor> + 24
       \<and> 24 * \<lfloor>fst p\<rfloor> \<le> 31 * \<lfloor>snd p\<rfloor> + 31"
proof -
  define X where "X = (of_nat w :: rat)"
  define Y where "Y = (of_nat h :: rat)"
  have small: "w < 2 ^ 24" "h < 2 ^ 24"
    using assms(1,2) by simp_all
  have ex: "f32 X = X" "f32 Y = Y"
    unfolding X_def Y_def using f32_of_nat [OF small(1)] f32_of_nat [OF small(2)] by blast+
  have nn: "0 \<le> X" "0 \<le> Y"
    by (simp_all add: X_def Y_def)
  have le: "fst p \<le> X \<and> snd p \<le> Y \<and> 0 \<le> fst p \<and> 0 \<le> snd p"
    unfolding p_def X_def [symmetric] Y_def [symmetric] using nn ex by (rule fix_aspect_le)
  have wh: "(0::int) \<le> int w" "int w < 262144" "(0::int) \<le> int h" "int h < 262144"
    using assms(1,2) by simp_all
  have fX: "\<lfloor>X\<rfloor> = int w" and fY: "\<lfloor>Y\<rfloor> = int h"
    by (simp_all add: X_def Y_def)
  have bYr: "Y * model3Ratio - Y * model3Ratio / 2 ^ 24 \<le> f32 (Y * model3Ratio)
      \<and> f32 (Y * model3Ratio) \<le> Y * model3Ratio + Y * model3Ratio / 2 ^ 24"
    using nn model3Ratio_pos by (intro f32_bounds) simp
  have bXr: "X / model3Ratio - X / model3Ratio / 2 ^ 24 \<le> f32 (X / model3Ratio)
      \<and> f32 (X / model3Ratio) \<le> X / model3Ratio + X / model3Ratio / 2 ^ 24"
    using nn model3Ratio_pos by (intro f32_bounds) simp
  have XY: "X = of_int (int w)" "Y = of_int (int h)"
    by (simp_all add: X_def Y_def)
  consider (width) "Y < f32 (X / model3Ratio)"
    | (height) "\<not> Y < f32 (X / model3Ratio)" "X < f32 (Y * model3Ratio)"
    | (none) "\<not> Y < f32 (X / model3Ratio)" "\<not> X < f32 (Y * model3Ratio)"
    by blast
  then have "(fst p = X \<or> snd p = Y)
       \<and> 31 * \<lfloor>snd p\<rfloor> \<le> 24 * \<lfloor>fst p\<rfloor> + 24
       \<and> 24 * \<lfloor>fst p\<rfloor> \<le> 31 * \<lfloor>snd p\<rfloor> + 31"
  proof cases
    case width
    define v where "v = f32 (Y * model3Ratio)"
    have p: "p = (v, Y)"
      unfolding p_def X_def [symmetric] Y_def [symmetric] v_def using width
      by (simp add: fix_aspect_cases)
    have "24 * \<lfloor>v\<rfloor> \<le> 31 * int h \<and> 31 * int h - 24 \<le> 24 * \<lfloor>v\<rfloor>"
    proof (rule width_shrunk_bounds [OF wh(3) wh(4)])
      show "of_int (int h) * (10835285 / 8388608) - of_int (int h) * (10835285 / 8388608) / 2 ^ 24 \<le> v"
        using bYr unfolding v_def model3Ratio_val XY by simp
      show "v \<le> of_int (int h) * (10835285 / 8388608) + of_int (int h) * (10835285 / 8388608) / 2 ^ 24"
        using bYr unfolding v_def model3Ratio_val XY by simp
      show "of_int \<lfloor>v\<rfloor> \<le> v" "v < of_int \<lfloor>v\<rfloor> + 1"
        by linarith+
    qed
    then show ?thesis
      by (simp add: p fY)
  next
    case height
    define v where "v = f32 (X / model3Ratio)"
    have p: "p = (X, v)"
      unfolding p_def X_def [symmetric] Y_def [symmetric] v_def using height
      by (simp add: fix_aspect_cases)
    have "31 * \<lfloor>v\<rfloor> \<le> 24 * int w \<and> 24 * int w - 31 \<le> 31 * \<lfloor>v\<rfloor>"
    proof (rule height_shrunk_bounds [OF wh(1) wh(2)])
      show "of_int (int w) / (10835285 / 8388608) - of_int (int w) / (10835285 / 8388608) / 2 ^ 24 \<le> v"
        using bXr unfolding v_def model3Ratio_val XY by simp
      show "v \<le> of_int (int w) / (10835285 / 8388608) + of_int (int w) / (10835285 / 8388608) / 2 ^ 24"
        using bXr unfolding v_def model3Ratio_val XY by simp
      show "of_int \<lfloor>v\<rfloor> \<le> v" "v < of_int \<lfloor>v\<rfloor> + 1"
        by linarith+
    qed
    then show ?thesis
      by (simp add: p fX)
  next
    case none
    have p: "p = (X, Y)"
      unfolding p_def X_def [symmetric] Y_def [symmetric] using none
      by (simp add: fix_aspect_cases)
    have "24 * int w = 31 * int h"
    proof (rule unshrunk_bounds [OF wh])
      show "of_int (int w) / (10835285 / 8388608) - of_int (int w) / (10835285 / 8388608) / 2 ^ 24
            \<le> (of_int (int h) :: rat)"
        using bXr none(1) unfolding model3Ratio_val XY by linarith
      show "of_int (int h) * (10835285 / 8388608) - of_int (int h) * (10835285 / 8388608) / 2 ^ 24
            \<le> (of_int (int w) :: rat)"
        using bYr none(2) unfolding model3Ratio_val XY by linarith
    qed
    then show ?thesis
      by (simp add: p fX fY)
  qed
  with le show ?thesis
    by (simp add: X_def Y_def)
qed

lemma CreateGLScreen_Inr:
  assumes "CreateGLScreen ops v caption (request w h) True fs = Inr (scr, evs)"
  shows "xRes scr = u32_of_f32 ops (fst (fix_aspect (f32_of_u32 w, f32_of_u32 h)))
       \<and> yRes scr = u32_of_f32 ops (snd (fix_aspect (f32_of_u32 w, f32_of_u32 h)))
       \<and> xOffset scr = (w - xRes scr) div 2 + (if w < current_w v then (current_w v - w) div 2 else 0)
       \<and> yOffset scr = (h - yRes scr) div 2 + (if h < current_h v then (current_h v - h) div 2 else 0)"
  using assms by (auto simp add: CreateGLScreen_def request_def Let_def split: if_splits)

lemma centred_fits:
  fixes a b :: u32
  assumes "unat b \<le> unat a"
  shows "unat ((a - b) div 2) + unat b \<le> unat a"
proof -
  have "b \<le> a"
    using assms by (simp add: word_le_nat_alt)
  then have "unat (a - b) = unat a - unat b"
    by (rule unat_sub)
  then have "unat ((a - b) div 2) = (unat a - unat b) div 2"
    by (simp add: unat_div)
  with assms show ?thesis
    by simp
qed

text \<open>
  Claim C3, as the code has it. For a request below 262144 in both dimensions with the
  aspect flag set, when \<open>CreateGLScreen\<close> succeeds: the resolved size does not exceed the
  request, one of the two dimensions is the requested one, and the resolved width and
  height are in the ratio 496/384 = 31/24 to within one pixel
  (\<open>24 w - 31 \<le> 31 h \<le> 24 w + 24\<close>). The offset on an axis is half of what the resolved size
  leaves of the request, plus half of the excess of the display over the request when the
  display is larger; so offset + resolved is at most the request on every axis where the
  display is not larger than the request.
\<close>

theorem CreateGLScreen_aspect_geometry:
  assumes "unat w < 262144" and "unat h < 262144"
    and "CreateGLScreen ops v caption (request w h) True fs = Inr (scr, evs)"
  shows "unat (xRes scr) \<le> unat w \<and> unat (yRes scr) \<le> unat h
     \<and> (xRes scr = w \<or> yRes scr = h)
     \<and> 31 * unat (yRes scr) \<le> 24 * unat (xRes scr) + 24
     \<and> 24 * unat (xRes scr) \<le> 31 * unat (yRes scr) + 31
     \<and> xOffset scr = (w - xRes scr) div 2 + (if w < current_w v then (current_w v - w) div 2 else 0)
     \<and> yOffset scr = (h - yRes scr) div 2 + (if h < current_h v then (current_h v - h) div 2 else 0)
     \<and> (\<not> w < current_w v \<longrightarrow> unat (xOffset scr) + unat (xRes scr) \<le> unat w)
     \<and> (\<not> h < current_h v \<longrightarrow> unat (yOffset scr) + unat (yRes scr) \<le> unat h)"
proof -
  define W where "W = unat w"
  define H where "H = unat h"
  define p where "p = fix_aspect (of_nat W, of_nat H)"
  have WH: "W < 262144" "H < 262144"
    using assms(1,2) by (simp_all add: W_def H_def)
  have cw: "f32_of_u32 w = of_nat W" and ch: "f32_of_u32 h = of_nat H"
    unfolding W_def H_def using assms(1,2) by (simp_all add: f32_of_u32_exact)
  from CreateGLScreen_Inr [OF assms(3)]
  have xr: "xRes scr = u32_of_f32 ops (fst p)" and yr: "yRes scr = u32_of_f32 ops (snd p)"
    and xo: "xOffset scr = (w - xRes scr) div 2 + (if w < current_w v then (current_w v - w) div 2 else 0)"
    and yo: "yOffset scr = (h - yRes scr) div 2 + (if h < current_h v then (current_h v - h) div 2 else 0)"
    unfolding cw ch p_def by simp_all
  from fix_aspect_geometry [OF WH]
  have g: "0 \<le> fst p" "0 \<le> snd p" "fst p \<le> of_nat W" "snd p \<le> of_nat H"
    "fst p = of_nat W \<or> snd p = of_nat H"
    "31 * \<lfloor>snd p\<rfloor> \<le> 24 * \<lfloor>fst p\<rfloor> + 24" "24 * \<lfloor>fst p\<rfloor> \<le> 31 * \<lfloor>snd p\<rfloor> + 31"
    unfolding p_def by simp_all
  have "(of_nat W :: rat) < 2 ^ 32" "(of_nat H :: rat) < 2 ^ 32"
    using WH by simp_all
  then have lt: "fst p < 2 ^ 32" "snd p < 2 ^ 32"
    using g(3,4) by linarith+
  have ux: "unat (xRes scr) = nat \<lfloor>fst p\<rfloor>"
    unfolding xr using g(1) lt(1) by (rule u32_of_f32_in_range(2))
  have uy: "unat (yRes scr) = nat \<lfloor>snd p\<rfloor>"
    unfolding yr using g(2) lt(2) by (rule u32_of_f32_in_range(2))
  have fl: "0 \<le> \<lfloor>fst p\<rfloor>" "0 \<le> \<lfloor>snd p\<rfloor>" "\<lfloor>fst p\<rfloor> \<le> int W" "\<lfloor>snd p\<rfloor> \<le> int H"
    using g(1-4) by (simp_all add: floor_le_iff le_floor_iff)
  have 1: "unat (xRes scr) \<le> unat w" "unat (yRes scr) \<le> unat h"
    using fl by (simp_all add: ux uy W_def [symmetric] H_def [symmetric])
  have 2: "xRes scr = w \<or> yRes scr = h"
  proof -
    from g(5) have "nat \<lfloor>fst p\<rfloor> = W \<or> nat \<lfloor>snd p\<rfloor> = H"
      by auto
    then have "unat (xRes scr) = unat w \<or> unat (yRes scr) = unat h"
      by (simp add: ux uy W_def H_def)
    then show ?thesis
      by (simp add: word_unat_eq_iff)
  qed
  have 3: "31 * unat (yRes scr) \<le> 24 * unat (xRes scr) + 24"
    "24 * unat (xRes scr) \<le> 31 * unat (yRes scr) + 31"
    using g(6,7) fl(1,2) by (simp_all add: ux uy)
  have 4: "\<not> w < current_w v \<longrightarrow> unat (xOffset scr) + unat (xRes scr) \<le> unat w"
    using centred_fits [OF 1(1)] by (simp add: xo)
  have 5: "\<not> h < current_h v \<longrightarrow> unat (yOffset scr) + unat (yRes scr) \<le> unat h"
    using centred_fits [OF 1(2)] by (simp add: yo)
  show ?thesis
    using 1 2 3 xo yo 4 5 by blast
qed

lemma fix_aspect_640_480: "fix_aspect (640, 480) = (620, 480)"
  by code_simp

lemma CreateGLScreen_640_480:
  assumes "SDL_InitSubSystem_ok v" and "SDL_SetVideoMode_ok v" and "glewInit_ok v"
  shows "CreateGLScreen ops v caption (request 640 480) True fs =
     Inr (\<lparr>xOffset = 10 + (if 640 < current_w v then (current_w v - 640) div 2 else 0),
           yOffset = (if 480 < current_h v then (current_h v - 480) div 2 else 0),
           xRes = 620, yRes = 480\<rparr>,
          [SDL_WM_SetCaption caption None])"
proof -
  have c: "f32_of_u32 640 = 640" "f32_of_u32 480 = 480"
    using f32_of_u32_exact [of 640] f32_of_u32_exact [of 480] by simp_all
  have u: "u32_of_f32 ops 620 = 620" "u32_of_f32 ops 480 = 480"
    using u32_of_f32_in_range(1) [of 620 ops] u32_of_f32_in_range(1) [of 480 ops] by simp_all
  show ?thesis
    using assms by (simp add: CreateGLScreen_def request_def c fix_aspect_640_480 u Let_def)
qed

theorem CreateGLScreen_aspect_geometry_witness:
  "unat (640::u32) < 262144 \<and> unat (480::u32) < 262144
   \<and> CreateGLScreen counter_ops (video all_ok) ''Supermodel'' (request 640 480) True False =
       Inr (\<lparr>xOffset = 10, yOffset = 0, xRes = 620, yRes = 480\<rparr>, [SDL_WM_SetCaption ''Supermodel'' None])
   \<and> unat (620::u32) \<le> unat (640::u32)
   \<and> 31 * unat (480::u32) \<le> 24 * unat (620::u32) + 24
   \<and> unat (10::u32) + unat (620::u32) \<le> unat (640::u32)"
proof -
  have v: "SDL_InitSubSystem_ok (video all_ok)" "SDL_SetVideoMode_ok (video all_ok)"
    "glewInit_ok (video all_ok)" "current_w (video all_ok) = 496" "current_h (video all_ok) = 384"
    by (simp_all add: all_ok_def)
  have e: "CreateGLScreen counter_ops (video all_ok) ''Supermodel'' (request 640 480) True False =
       Inr (\<lparr>xOffset = 10, yOffset = 0, xRes = 620, yRes = 480\<rparr>, [SDL_WM_SetCaption ''Supermodel'' None])"
    using CreateGLScreen_640_480 [OF v(1-3), of counter_ops "''Supermodel''" False] by (simp add: v)
  have s: "unat (640::u32) < 262144" "unat (480::u32) < 262144"
    by simp_all
  show ?thesis
    using CreateGLScreen_aspect_geometry [OF s e] e by simp
qed

text \<open>
  Claim C3 as stated fails when the display is larger than the request: for a request of
  640 by 480 on a display of 1920 by 1080 the resolved size is 620 by 480, and the second
  centring adds 640 and 300 to the offsets, so that offset plus resolved size exceeds the
  request on both axes.
\<close>

theorem CreateGLScreen_offset_exceeds_request:
  "CreateGLScreen counter_ops big_display ''Supermodel'' (request 640 480) True True =
     Inr (\<lparr>xOffset = 650, yOffset = 300, xRes = 620, yRes = 480\<rparr>, [SDL_WM_SetCaption ''Supermodel'' None])
   \<and> \<not> unat (650::u32) + unat (620::u32) \<le> unat (640::u32)
   \<and> \<not> unat (300::u32) + unat (480::u32) \<le> unat (480::u32)"
proof -
  have v: "SDL_InitSubSystem_ok big_display" "SDL_SetVideoMode_ok big_display"
    "glewInit_ok big_display" "current_w big_display = 1920" "current_h big_display = 1080"
    by (simp_all add: big_display_def)
  show ?thesis
    using CreateGLScreen_640_480 [OF v(1-3), of counter_ops "''Supermodel''" True] by (simp add: v)
qed

end
